theory Spec2Isabelle
  imports Complex_Main "HOL-Library.AList"
begin

section \<open>JavaScript values that the services handle\<close>

text \<open>
  A JavaScript number is a double. The only arithmetic the modelled code performs on a
  number of unknown origin is \<open>Math.max\<close> and \<open>Math.min\<close>, which compare and return
  one of their arguments, so a finite double is represented by the real number it denotes
  and the three non-finite values are kept apart.
\<close>

datatype jsnum = NaN | NegInf | Fin real | PosInf

fun Math_max :: "jsnum \<Rightarrow> jsnum \<Rightarrow> jsnum" where
  "Math_max NaN b = NaN"
| "Math_max a NaN = NaN"
| "Math_max PosInf b = PosInf"
| "Math_max a PosInf = PosInf"
| "Math_max NegInf b = b"
| "Math_max a NegInf = a"
| "Math_max (Fin a) (Fin b) = Fin (max a b)"

fun Math_min :: "jsnum \<Rightarrow> jsnum \<Rightarrow> jsnum" where
  "Math_min NaN b = NaN"
| "Math_min a NaN = NaN"
| "Math_min NegInf b = NegInf"
| "Math_min a NegInf = NegInf"
| "Math_min PosInf b = b"
| "Math_min a PosInf = a"
| "Math_min (Fin a) (Fin b) = Fin (min a b)"

text \<open>The closed interval \<open>[0, 1]\<close> on JavaScript numbers; \<open>NaN\<close> is in no interval.\<close>

fun in_unit_interval :: "jsnum \<Rightarrow> bool" where
  "in_unit_interval (Fin r) = (0 \<le> r \<and> r \<le> 1)"
| "in_unit_interval NaN = False"
| "in_unit_interval NegInf = False"
| "in_unit_interval PosInf = False"

text \<open>The result of \<open>JSON.parse\<close>, and a value that may be \<open>undefined\<close>.\<close>

datatype json =
    JNull
  | JBool bool
  | JNum jsnum
  | JStr string
  | JArr "json list"
  | JObj "(string \<times> json) list"

datatype jsvalue = Undefined | Defined json

text \<open>
  What the JavaScript runtime contributes and the repository does not contain:
  \<open>JSON.parse\<close> (\<open>None\<close> when it throws a SyntaxError) and the numeric coercion of a
  string, an array or an object, which \<open>Math.max\<close> applies to its argument.
\<close>

record js_runtime =
  JSON_parse :: "string \<Rightarrow> json option"
  coerce_to_number :: "json \<Rightarrow> jsnum"

text \<open>
  Reading a property of a parsed value: \<open>parsed.category\<close>. On \<open>null\<close> the read throws
  a TypeError (\<open>None\<close>); on a boolean, number, string or array the three property names
  the code reads are \<open>undefined\<close>.
\<close>

fun get_property :: "json \<Rightarrow> string \<Rightarrow> jsvalue option" where
  "get_property JNull k = None"
| "get_property (JObj kvs) k =
     Some (case map_of kvs k of None \<Rightarrow> Undefined | Some v \<Rightarrow> Defined v)"
| "get_property (JBool b) k = Some Undefined"
| "get_property (JNum n) k = Some Undefined"
| "get_property (JStr s) k = Some Undefined"
| "get_property (JArr vs) k = Some Undefined"

fun ToNumber :: "js_runtime \<Rightarrow> jsvalue \<Rightarrow> jsnum" where
  "ToNumber rt Undefined = NaN"
| "ToNumber rt (Defined JNull) = Fin 0"
| "ToNumber rt (Defined (JBool b)) = Fin (if b then 1 else 0)"
| "ToNumber rt (Defined (JNum n)) = n"
| "ToNumber rt (Defined (JStr s)) = coerce_to_number rt (JStr s)"
| "ToNumber rt (Defined (JArr vs)) = coerce_to_number rt (JArr vs)"
| "ToNumber rt (Defined (JObj kvs)) = coerce_to_number rt (JObj kvs)"

section \<open>Errors and the log\<close>

datatype error =
    NoProviderConfigured
  | ProviderRejected
  | NoResponse
  | UnexpectedResponseType
  | InvalidResponseFormat
  | ClientNotInitialized
  | TypeError
  | RangeError
  | CollectionNotInitialized
  | QueryFailed
  | SearchClientFailed
  | VectorClientFailed
  | HttpPostFailed
  | ImapFailed
  | ParserFailed

datatype log_level = Info | Warn | Error | Debug

text \<open>
  A call of the logger: its level and its arguments, a template string being the list of
  its literal parts and interpolated values.
\<close>

datatype log_arg = S string | N int | E error

datatype log_entry = Log log_level "log_arg list"

section \<open>AIService\<close>

record EmailCategorization =
  category :: jsvalue
  confidence :: jsnum
  reasoning :: jsvalue

text \<open>
  The prompt is a fixed template with three holes: the subject, the sender and the first
  1000 characters of the body. The model keeps the holes.
\<close>

record prompt =
  prompt_subject :: string
  prompt_from :: string
  prompt_body :: string

definition buildCategorizationPrompt :: "string \<Rightarrow> string \<Rightarrow> string \<Rightarrow> prompt" where
  "buildCategorizationPrompt subject body fromEmail =
     \<lparr>prompt_subject = subject, prompt_from = fromEmail, prompt_body = take 1000 body\<rparr>"

text \<open>
  What a provider's client does when asked for a completion. The call may reject (a
  network error, an HTTP error, the client's timeout); a response of OpenAI may lack the
  \<open>choices\<close> array, or carry the content of the first choice, if any; a response of
  Anthropic carries content blocks, each with a type and possibly a text.
\<close>

datatype openai_outcome =
    OpenAIRejects
  | OpenAINoChoices
  | OpenAIContent "string option"

datatype anthropic_outcome =
    AnthropicRejects
  | AnthropicBlocks "(string \<times> string option) list"

text \<open>
  The service object: the provider's name and the two clients, each present when its API
  key is. A client is its behaviour, a function of the number of the call and the prompt.
\<close>

record AIService =
  provider :: string
  openai :: "(nat \<Rightarrow> prompt \<Rightarrow> openai_outcome) option"
  anthropic :: "(nat \<Rightarrow> prompt \<Rightarrow> anthropic_outcome) option"

text \<open>
  The inner \<open>try\<close> of both provider paths: parse the content and build the result; any
  exception in it is logged and replaced by "Invalid response format from AI".
\<close>

definition parse_categorization :: "js_runtime \<Rightarrow> string option \<Rightarrow> EmailCategorization option" where
  "parse_categorization rt content =
     (case content of
        None \<Rightarrow> None
      | Some text \<Rightarrow>
          (case JSON_parse rt text of
             None \<Rightarrow> None
           | Some parsed \<Rightarrow>
               (case get_property parsed ''category'' of
                  None \<Rightarrow> None
                | Some cat \<Rightarrow>
                    (case get_property parsed ''confidence'' of
                       None \<Rightarrow> None
                     | Some conf \<Rightarrow>
                         (case get_property parsed ''reasoning'' of
                            None \<Rightarrow> None
                          | Some reas \<Rightarrow>
                              Some \<lparr>category = cat,
                                    confidence = Math_min (Math_max (ToNumber rt conf) (Fin 0)) (Fin 1),
                                    reasoning = reas\<rparr>)))))"

definition categorizeWithOpenAI ::
  "AIService \<Rightarrow> js_runtime \<Rightarrow> nat \<Rightarrow> prompt \<Rightarrow> log_entry list \<times> (error + EmailCategorization)" where
  "categorizeWithOpenAI svc rt n p =
     (case openai svc of
        None \<Rightarrow> ([], Inl ClientNotInitialized)
      | Some client \<Rightarrow>
          (case client n p of
             OpenAIRejects \<Rightarrow> ([], Inl ProviderRejected)
           | OpenAINoChoices \<Rightarrow> ([], Inl TypeError)
           | OpenAIContent None \<Rightarrow> ([], Inl NoResponse)
           | OpenAIContent (Some content) \<Rightarrow>
               (if content = [] then ([], Inl NoResponse)
                else (case parse_categorization rt (Some content) of
                        Some c \<Rightarrow> ([], Inr c)
                      | None \<Rightarrow>
                          ([Log Error [S ''Failed to parse OpenAI response:'', E InvalidResponseFormat]],
                           Inl InvalidResponseFormat)))))"

definition categorizeWithAnthropic ::
  "AIService \<Rightarrow> js_runtime \<Rightarrow> nat \<Rightarrow> prompt \<Rightarrow> log_entry list \<times> (error + EmailCategorization)" where
  "categorizeWithAnthropic svc rt n p =
     (case anthropic svc of
        None \<Rightarrow> ([], Inl ClientNotInitialized)
      | Some client \<Rightarrow>
          (case client n p of
             AnthropicRejects \<Rightarrow> ([], Inl ProviderRejected)
           | AnthropicBlocks [] \<Rightarrow> ([], Inl TypeError)
           | AnthropicBlocks ((ty, text) # rest) \<Rightarrow>
               (if ty \<noteq> ''text'' then ([], Inl UnexpectedResponseType)
                else (case parse_categorization rt text of
                        Some c \<Rightarrow> ([], Inr c)
                      | None \<Rightarrow>
                          ([Log Error [S ''Failed to parse Anthropic response:'', E InvalidResponseFormat]],
                           Inl InvalidResponseFormat)))))"

text \<open>The body of the \<open>try\<close> of \<open>categorizeEmail\<close>.\<close>

definition categorize_try ::
  "AIService \<Rightarrow> js_runtime \<Rightarrow> nat \<Rightarrow> string \<Rightarrow> string \<Rightarrow> string
     \<Rightarrow> log_entry list \<times> (error + EmailCategorization)" where
  "categorize_try svc rt n subject body fromEmail =
     (let p = buildCategorizationPrompt subject body fromEmail in
      if provider svc = ''openai'' \<and> openai svc \<noteq> None then categorizeWithOpenAI svc rt n p
      else if anthropic svc \<noteq> None then categorizeWithAnthropic svc rt n p
      else ([], Inl NoProviderConfigured))"

definition default_categorization :: EmailCategorization where
  "default_categorization =
     \<lparr>category = Defined (JStr ''Not Interested''),
      confidence = Fin 0.5,
      reasoning = Defined (JStr ''AI categorization failed, defaulting to Not Interested'')\<rparr>"

definition categorizeEmail ::
  "AIService \<Rightarrow> js_runtime \<Rightarrow> nat \<Rightarrow> string \<Rightarrow> string \<Rightarrow> string
     \<Rightarrow> log_entry list \<times> EmailCategorization" where
  "categorizeEmail svc rt n subject body fromEmail =
     (case categorize_try svc rt n subject body fromEmail of
        (ls, Inr c) \<Rightarrow> (ls, c)
      | (ls, Inl err) \<Rightarrow>
          (ls @ [Log Error [S ''Failed to categorize email:'', E err]], default_categorization))"

section \<open>Accounts, parsed mail and email documents\<close>

record IMAPAccount =
  acc_id :: int
  name :: string
  host :: string
  port :: int
  secure :: bool
  username :: string
  password :: string
  folders :: "string list"
  isActive :: bool

text \<open>
  What \<open>simpleParser\<close> returns, as far as \<open>parseEmail\<close> reads it. An address header is
  \<open>None\<close> when absent; its \<open>value\<close> array is \<open>None\<close> when the header object has no
  such property. A \<open>Date\<close> object is valid, with its ISO string, or invalid, and then
  \<open>toISOString\<close> throws a RangeError.
\<close>

record EmailAddress =
  address :: "string option"
  addr_name :: "string option"

type_synonym AddressObject = "EmailAddress list option"

datatype jsdate = ValidDate string | InvalidDate

record MailAttachment =
  att_filename :: "string option"
  att_contentType :: string
  att_size :: nat
  att_cid :: "string option"

record ParsedMail =
  mail_messageId :: "string option"
  mail_from :: "AddressObject option"
  mail_to :: "AddressObject option"
  mail_cc :: "AddressObject option"
  mail_bcc :: "AddressObject option"
  mail_attachments :: "MailAttachment list option"
  mail_subject :: "string option"
  mail_date :: "jsdate option"
  mail_receivedDate :: "jsdate option"
  mail_text :: "string option"
  mail_flags :: "string list option"
  mail_html :: "string option"

record DocAttachment =
  filename :: string
  contentType :: string
  attachment_size :: nat
  cid :: "string option"

record EmailDocument =
  id' :: string
  messageId :: string
  accountId :: int
  accountName :: string
  folder :: string
  subject :: string
  fromEmail :: string
  fromName :: string
  toEmails :: "string option list"
  ccEmails :: "string option list"
  bccEmails :: "string option list"
  date :: string
  receivedDate :: string
  size' :: nat
  flags :: "string list"
  bodyText :: string
  bodyHtml :: string
  attachments :: "DocAttachment list"
  aiCategory :: jsvalue
  aiConfidence :: jsnum
  isRead :: bool
  isImportant :: bool
  createdAt :: string
  updatedAt :: string

text \<open>\<open>x || d\<close> on a string that may be undefined: the empty string is falsy too.\<close>

definition or_default :: "string option \<Rightarrow> string \<Rightarrow> string" where
  "or_default x d = (case x of None \<Rightarrow> d | Some s \<Rightarrow> if s = [] then d else s)"

text \<open>\<open>(h as any)?.value?.[0]\<close>: the first address of a header, if there is one.\<close>

definition first_address :: "AddressObject option \<Rightarrow> EmailAddress option" where
  "first_address h =
     (case h of
        None \<Rightarrow> None
      | Some None \<Rightarrow> None
      | Some (Some []) \<Rightarrow> None
      | Some (Some (a # as)) \<Rightarrow> Some a)"

text \<open>\<open>(h as any)?.value?.map((addr) => addr.address) || []\<close>.\<close>

definition address_list :: "AddressObject option \<Rightarrow> string option list" where
  "address_list h =
     (case h of
        None \<Rightarrow> []
      | Some None \<Rightarrow> []
      | Some (Some as) \<Rightarrow> map address as)"

definition map_attachment :: "MailAttachment \<Rightarrow> DocAttachment" where
  "map_attachment att =
     \<lparr>filename = or_default (att_filename att) ''unknown'',
      contentType = att_contentType att,
      attachment_size = att_size att,
      cid = att_cid att\<rparr>"

text \<open>\<open>d?.toISOString() || new Date().toISOString()\<close>, with the clock's reading given.\<close>

definition iso_or_now :: "jsdate option \<Rightarrow> string \<Rightarrow> error + string" where
  "iso_or_now d now =
     (case d of
        None \<Rightarrow> Inr now
      | Some InvalidDate \<Rightarrow> Inl RangeError
      | Some (ValidDate str) \<Rightarrow> Inr (if str = [] then now else str))"

text \<open>
  What one run of \<open>parseEmail\<close> takes from its environment, in the order of the source:
  the result of \<open>uuidv4()\<close> and the ISO strings of the four \<open>new Date()\<close> readings
  (for \<open>date\<close>, \<open>receivedDate\<close>, \<open>createdAt\<close> and \<open>updatedAt\<close>). The first two
  readings are taken only when the message has no date of that kind.
\<close>

record draws =
  uuid :: string
  now_date :: string
  now_receivedDate :: string
  now_createdAt :: string
  now_updatedAt :: string

definition parseEmail ::
  "draws \<Rightarrow> (int \<times> IMAPAccount) list \<Rightarrow> ParsedMail \<Rightarrow> int \<Rightarrow> string
     \<Rightarrow> log_entry list \<times> EmailDocument option" where
  "parseEmail d accs parsed accId folderName =
     (case map_of accs accId of
        None \<Rightarrow> ([], None)
      | Some account \<Rightarrow>
          (let emailId = uuid d;
               msgId = or_default (mail_messageId parsed) emailId;
               fromE = or_default (case first_address (mail_from parsed) of
                                      None \<Rightarrow> None | Some a \<Rightarrow> address a) [];
               fromN = or_default (case first_address (mail_from parsed) of
                                      None \<Rightarrow> None | Some a \<Rightarrow> addr_name a) [];
               atts = (case mail_attachments parsed of
                         None \<Rightarrow> [] | Some as \<Rightarrow> map map_attachment as)
           in case iso_or_now (mail_date parsed) (now_date d) of
                Inl err \<Rightarrow> ([Log Error [S ''Error parsing email:'', E err]], None)
              | Inr dt \<Rightarrow>
                 (case iso_or_now (mail_receivedDate parsed) (now_receivedDate d) of
                    Inl err \<Rightarrow> ([Log Error [S ''Error parsing email:'', E err]], None)
                  | Inr rdt \<Rightarrow>
                      ([], Some
                        \<lparr>id' = emailId,
                         messageId = msgId,
                         accountId = accId,
                         accountName = name account,
                         folder = folderName,
                         subject = or_default (mail_subject parsed) [],
                         fromEmail = fromE,
                         fromName = fromN,
                         toEmails = address_list (mail_to parsed),
                         ccEmails = address_list (mail_cc parsed),
                         bccEmails = address_list (mail_bcc parsed),
                         date = dt,
                         receivedDate = rdt,
                         size' = (case mail_text parsed of None \<Rightarrow> 0 | Some t \<Rightarrow> length t),
                         flags = (case mail_flags parsed of None \<Rightarrow> [] | Some fs \<Rightarrow> fs),
                         bodyText = or_default (mail_text parsed) [],
                         bodyHtml = or_default (mail_html parsed) [],
                         attachments = atts,
                         aiCategory = Defined (JStr ''Not Interested''),
                         aiConfidence = Fin 0.5,
                         isRead = False,
                         isImportant = False,
                         createdAt = now_createdAt d,
                         updatedAt = now_updatedAt d\<rparr>))))"

section \<open>The stores and the state of the synchronisation service\<close>

text \<open>
  A row of the table \<open>emails\<close>: the 22 columns that the \<open>INSERT\<close> of
  \<open>storeEmailInDatabase\<close> writes. The surrogate key \<open>id SERIAL\<close> is assigned by the
  database and read by none of the modelled code. \<open>message_id\<close> is \<open>UNIQUE NOT NULL\<close>.
\<close>

record emails_row =
  col_message_id :: string
  col_account_id :: int
  col_folder :: string
  col_subject :: string
  col_from_email :: string
  col_from_name :: string
  col_to_emails :: "string option list"
  col_cc_emails :: "string option list"
  col_bcc_emails :: "string option list"
  col_date :: string
  col_received_date :: string
  col_size :: nat
  col_flags :: "string list"
  col_body_text :: string
  col_body_html :: string
  col_attachments :: "DocAttachment list"
  col_ai_category :: jsvalue
  col_ai_confidence :: jsnum
  col_is_read :: bool
  col_is_important :: bool
  col_created_at :: string
  col_updated_at :: string

text \<open>A row of \<open>email_accounts\<close>; \<open>is_active\<close> has a default but may be \<open>NULL\<close>.\<close>

record accounts_row =
  col_id :: int
  col_name :: string
  col_host :: string
  col_port :: int
  col_secure :: bool
  col_username :: string
  col_password :: string
  col_folders :: "string list"
  col_is_active :: "bool option"

text \<open>
  An \<open>Imap\<close> object made by \<open>startIDLEConnection\<close>: the account its handlers close
  over, which of the three \<open>once\<close> listeners are still registered, and the operations
  requested of it so far.
\<close>

datatype imap_op = Connect | End | OpenBox string

record imap_object =
  imap_accountId :: int
  imap_account :: IMAPAccount
  once_ready :: bool
  once_error :: bool
  once_end :: bool
  imap_ops :: "imap_op list"

text \<open>A pending \<open>setTimeout\<close>: its delay in milliseconds and what its callback closes over.\<close>

datatype timer_callback = Reconnect int IMAPAccount

text \<open>The calls the service makes on its collaborators, in order.\<close>

datatype db_query =
    SelectActiveAccounts
  | UpsertEmail EmailDocument

datatype call =
    GetEmailById string
  | CategorizeEmail string string string
  | Query db_query
  | IndexEmail EmailDocument
  | VectorStoreEmail EmailDocument
  | SlackNotification EmailDocument
  | InterestedWebhook EmailDocument
  | IoEmit EmailDocument

text \<open>
  The state: the four fields of \<open>EmailSyncService\<close> (\<open>accounts\<close>, \<open>connections\<close>,
  \<open>isRunning\<close>, \<open>syncInterval\<close>), the runtime objects its closures refer to (the
  \<open>Imap\<close> objects, a connection being the index of its object; the pending timeouts; the
  intervals, each with its period and whether it is still armed), the two tables, the
  search index by document id, the trace of calls and the log. A JavaScript \<open>Map\<close> is an
  association list in insertion order.
\<close>

record system =
  accounts :: "(int \<times> IMAPAccount) list"
  connections :: "(int \<times> nat) list"
  isRunning :: bool
  syncInterval :: "nat option"
  imaps :: "imap_object list"
  timers :: "(nat \<times> timer_callback) list"
  intervals :: "(int \<times> bool) list"
  db_email_accounts :: "accounts_row list"
  db_emails :: "emails_row list"
  es_index :: "(string \<times> EmailDocument) list"
  calls :: "call list"
  logs :: "log_entry list"

text \<open>
  The collaborators' behaviour, which the repository does not decide: whether a request
  of the pipeline fails, as a function of the number of calls made before it and of its
  argument; whether making the \<open>n\<close>-th \<open>Imap\<close> object or calling \<open>end()\<close> on an
  object throws; the configuration read from the process environment (the two webhook
  URLs, empty when unset, whether the vector collection has been initialised, and the
  integer that \<open>parseInt\<close> makes of \<open>SYNC_INTERVAL_MINUTES\<close>); and the mail parser,
  \<open>None\<close> when its promise rejects.
\<close>

record env =
  ai :: AIService
  rt :: js_runtime
  es_get_fails :: "nat \<Rightarrow> string \<Rightarrow> bool"
  es_index_fails :: "nat \<Rightarrow> EmailDocument \<Rightarrow> bool"
  db_query_fails :: "nat \<Rightarrow> db_query \<Rightarrow> bool"
  vector_collection :: bool
  vector_add_fails :: "nat \<Rightarrow> EmailDocument \<Rightarrow> bool"
  slack_webhookUrl :: string
  slack_post_fails :: "nat \<Rightarrow> EmailDocument \<Rightarrow> bool"
  webhook_webhookUrl :: string
  webhook_post_fails :: "nat \<Rightarrow> EmailDocument \<Rightarrow> bool"
  imap_start_throws :: "nat \<Rightarrow> IMAPAccount \<Rightarrow> bool"
  imap_end_throws :: "nat \<Rightarrow> bool"
  simpleParser :: "string \<Rightarrow> ParsedMail option"
  intervalMinutes :: int

definition logger :: "log_entry list \<Rightarrow> system \<Rightarrow> system" where
  "logger ls s = s\<lparr>logs := logs s @ ls\<rparr>"

definition record_call :: "call \<Rightarrow> system \<Rightarrow> system" where
  "record_call c s = s\<lparr>calls := calls s @ [c]\<rparr>"

section \<open>The downstream pipeline\<close>

subsection \<open>storeEmailInDatabase\<close>

definition insert_values :: "EmailDocument \<Rightarrow> emails_row" where
  "insert_values email =
     \<lparr>col_message_id = messageId email,
      col_account_id = accountId email,
      col_folder = folder email,
      col_subject = subject email,
      col_from_email = fromEmail email,
      col_from_name = fromName email,
      col_to_emails = toEmails email,
      col_cc_emails = ccEmails email,
      col_bcc_emails = bccEmails email,
      col_date = date email,
      col_received_date = receivedDate email,
      col_size = size' email,
      col_flags = flags email,
      col_body_text = bodyText email,
      col_body_html = bodyHtml email,
      col_attachments = attachments email,
      col_ai_category = aiCategory email,
      col_ai_confidence = aiConfidence email,
      col_is_read = isRead email,
      col_is_important = isImportant email,
      col_created_at = createdAt email,
      col_updated_at = updatedAt email\<rparr>"

text \<open>
  \<open>INSERT ... ON CONFLICT (message_id) DO UPDATE SET updated_at = $22, ai_category = $17,
  ai_confidence = $18\<close>: a row with the same \<open>message_id\<close> keeps its other columns.
\<close>

fun upsert_email :: "emails_row \<Rightarrow> emails_row list \<Rightarrow> emails_row list" where
  "upsert_email v [] = [v]"
| "upsert_email v (r # rs) =
     (if col_message_id r = col_message_id v
      then r\<lparr>col_updated_at := col_updated_at v,
             col_ai_category := col_ai_category v,
             col_ai_confidence := col_ai_confidence v\<rparr> # rs
      else r # upsert_email v rs)"

definition storeEmailInDatabase :: "env \<Rightarrow> EmailDocument \<Rightarrow> system \<Rightarrow> system" where
  "storeEmailInDatabase ev email s =
     (let s1 = record_call (Query (UpsertEmail email)) s in
      if db_query_fails ev (length (calls s)) (UpsertEmail email)
      then logger [Log Error [S ''Error storing email in database:'', E QueryFailed]] s1
      else s1\<lparr>db_emails := upsert_email (insert_values email) (db_emails s1)\<rparr>)"

subsection \<open>ElasticsearchService\<close>

text \<open>
  \<open>getEmailById\<close>: the document, \<open>null\<close> on a 404, and any other failure of the client
  is logged and thrown again.
\<close>

definition getEmailById :: "env \<Rightarrow> string \<Rightarrow> system \<Rightarrow> (error \<times> system) + (EmailDocument option \<times> system)" where
  "getEmailById ev i s =
     (let s1 = record_call (GetEmailById i) s in
      if es_get_fails ev (length (calls s)) i
      then Inl (SearchClientFailed,
                logger [Log Error [S ''Failed to get email by ID:'', E SearchClientFailed]] s1)
      else Inr (map_of (es_index s1) i, s1))"

definition indexEmail :: "env \<Rightarrow> EmailDocument \<Rightarrow> system \<Rightarrow> (error \<times> system) + system" where
  "indexEmail ev email s =
     (let s1 = record_call (IndexEmail email) s in
      if es_index_fails ev (length (calls s)) email
      then Inl (SearchClientFailed,
                logger [Log Error [S ''Failed to index email:'', E SearchClientFailed]] s1)
      else Inr (logger [Log Debug [S ''Email indexed: '', S (messageId email)]]
                  (s1\<lparr>es_index := AList.update (id' email) email (es_index s1)\<rparr>)))"

subsection \<open>VectorDBService, SlackService, WebhookService\<close>

definition vector_storeEmail :: "env \<Rightarrow> EmailDocument \<Rightarrow> system \<Rightarrow> system" where
  "vector_storeEmail ev email s =
     (let s1 = record_call (VectorStoreEmail email) s in
      if \<not> vector_collection ev
      then logger [Log Error [S ''Failed to store email in vector database:'',
                              E CollectionNotInitialized]] s1
      else if vector_add_fails ev (length (calls s)) email
      then logger [Log Error [S ''Failed to store email in vector database:'',
                              E VectorClientFailed]] s1
      else logger [Log Debug [S ''Email stored in vector database: '', S (messageId email)]] s1)"

definition sendInterestedEmailNotification :: "env \<Rightarrow> EmailDocument \<Rightarrow> system \<Rightarrow> system" where
  "sendInterestedEmailNotification ev email s =
     (let s1 = record_call (SlackNotification email) s in
      if slack_webhookUrl ev = []
      then logger [Log Warn [S ''Slack webhook URL not configured'']] s1
      else if slack_post_fails ev (length (calls s)) email
      then logger [Log Error [S ''Failed to send Slack notification:'', E HttpPostFailed]] s1
      else logger [Log Info [S ''Slack notification sent for email: '', S (messageId email)]] s1)"

definition triggerInterestedEmailWebhook :: "env \<Rightarrow> EmailDocument \<Rightarrow> system \<Rightarrow> system" where
  "triggerInterestedEmailWebhook ev email s =
     (let s1 = record_call (InterestedWebhook email) s in
      if webhook_webhookUrl ev = []
      then logger [Log Warn [S ''Webhook URL not configured'']] s1
      else if webhook_post_fails ev (length (calls s)) email
      then logger [Log Error [S ''Failed to trigger webhook:'', E HttpPostFailed]] s1
      else logger [Log Info [S ''Webhook triggered for interested email: '',
                             S (messageId email)]] s1)"

definition handleInterestedEmail :: "env \<Rightarrow> EmailDocument \<Rightarrow> system \<Rightarrow> system" where
  "handleInterestedEmail ev email s =
     logger [Log Info [S ''Handled interested email: '', S (messageId email)]]
       (triggerInterestedEmailWebhook ev email (sendInterestedEmailNotification ev email s))"

subsection \<open>processEmails\<close>

text \<open>
  The steps of the loop body after the categorisation: store, index, vector store,
  notification, event. Only \<open>indexEmail\<close> can throw here.
\<close>

definition forward_email :: "env \<Rightarrow> EmailDocument \<Rightarrow> system \<Rightarrow> (error \<times> system) + system" where
  "forward_email ev email s =
     (case indexEmail ev email (storeEmailInDatabase ev email s) of
        Inl thrown \<Rightarrow> Inl thrown
      | Inr s1 \<Rightarrow>
          (let s2 = vector_storeEmail ev email s1;
               s3 = (if aiCategory email = Defined (JStr ''Interested'')
                     then handleInterestedEmail ev email s2 else s2)
           in Inr (record_call (IoEmit email) s3)))"

text \<open>
  One iteration of the loop of \<open>processEmails\<close>: \<open>Inl\<close> is an exception that leaves the
  loop, with the state at the throw; \<open>Inr\<close> is the state at the end of the iteration
  (also after \<open>continue\<close>).
\<close>

definition processEmail :: "env \<Rightarrow> EmailDocument \<Rightarrow> system \<Rightarrow> (error \<times> system) + system" where
  "processEmail ev email s =
     (case getEmailById ev (id' email) s of
        Inl thrown \<Rightarrow> Inl thrown
      | Inr (Some existing, s1) \<Rightarrow> Inr s1
      | Inr (None, s1) \<Rightarrow>
          (case categorizeEmail (ai ev) (rt ev) (length (calls s1))
                  (subject email) (bodyText email) (fromEmail email) of
             (ls, categorization) \<Rightarrow>
               forward_email ev
                 (email\<lparr>aiCategory := category categorization,
                        aiConfidence := confidence categorization\<rparr>)
                 (logger ls
                    (record_call (CategorizeEmail (subject email) (bodyText email) (fromEmail email))
                       s1))))"

text \<open>The loop, inside the \<open>try\<close> whose \<open>catch\<close> logs the exception.\<close>

fun processEmails :: "env \<Rightarrow> EmailDocument list \<Rightarrow> system \<Rightarrow> system" where
  "processEmails ev [] s = s"
| "processEmails ev (email # emails) s =
     (case processEmail ev email s of
        Inl (err, s1) \<Rightarrow> logger [Log Error [S ''Error processing emails:'', E err]] s1
      | Inr s1 \<Rightarrow> processEmails ev emails s1)"

section \<open>EmailSyncService: connections and lifecycle\<close>

text \<open>
  \<open>startIDLEConnection\<close> makes an \<open>Imap\<close> object, registers the three \<open>once\<close>
  listeners and calls \<open>connect()\<close>; an exception of the constructor or of \<open>connect\<close> is
  logged and nothing is kept.
\<close>

definition startIDLEConnection :: "env \<Rightarrow> int \<Rightarrow> IMAPAccount \<Rightarrow> system \<Rightarrow> system" where
  "startIDLEConnection ev accId account s =
     (if imap_start_throws ev (length (imaps s)) account
      then logger [Log Error [S ''Failed to start IDLE connection for account '',
                              S (name account), S '':'', E ImapFailed]] s
      else s\<lparr>imaps := imaps s @
                 [\<lparr>imap_accountId = accId, imap_account = account, once_ready = True,
                   once_error = True, once_end = True, imap_ops = [Connect]\<rparr>]\<rparr>)"

text \<open>\<open>SELECT ... FROM email_accounts WHERE is_active = true\<close>: a \<open>NULL\<close> is not selected.\<close>

definition select_active_accounts :: "accounts_row list \<Rightarrow> accounts_row list" where
  "select_active_accounts rows = filter (\<lambda>r. col_is_active r = Some True) rows"

definition account_of_row :: "accounts_row \<Rightarrow> IMAPAccount" where
  "account_of_row r =
     \<lparr>acc_id = col_id r, name = col_name r, host = col_host r, port = col_port r,
      secure = col_secure r, username = col_username r, password = col_password r,
      folders = col_folders r,
      isActive = (case col_is_active r of None \<Rightarrow> False | Some b \<Rightarrow> b)\<rparr>"

fun set_accounts :: "accounts_row list \<Rightarrow> (int \<times> IMAPAccount) list \<Rightarrow> (int \<times> IMAPAccount) list" where
  "set_accounts [] m = m"
| "set_accounts (r # rows) m = set_accounts rows (AList.update (col_id r) (account_of_row r) m)"

definition loadAccounts :: "env \<Rightarrow> system \<Rightarrow> (error \<times> system) + system" where
  "loadAccounts ev s =
     (let s1 = record_call (Query SelectActiveAccounts) s in
      if db_query_fails ev (length (calls s)) SelectActiveAccounts
      then Inl (QueryFailed,
                logger [Log Error [S ''Failed to load email accounts:'', E QueryFailed]] s1)
      else (let accs = set_accounts (select_active_accounts (db_email_accounts s1)) []
            in Inr (logger [Log Info [S ''Loaded '', N (int (length accs)),
                                      S '' active email accounts'']]
                      (s1\<lparr>accounts := accs\<rparr>))))"

text \<open>The loop of \<open>startSync\<close> over the entries of \<open>accounts\<close>.\<close>

fun start_connections :: "env \<Rightarrow> (int \<times> IMAPAccount) list \<Rightarrow> system \<Rightarrow> system" where
  "start_connections ev [] s = s"
| "start_connections ev ((accId, account) # rest) s =
     start_connections ev rest
       (if isActive account then startIDLEConnection ev accId account s else s)"

definition startPeriodicSync :: "env \<Rightarrow> system \<Rightarrow> system" where
  "startPeriodicSync ev s =
     s\<lparr>intervals := intervals s @ [(intervalMinutes ev * 60 * 1000, True)],
       syncInterval := Some (length (intervals s))\<rparr>"

definition startSync :: "env \<Rightarrow> system \<Rightarrow> (error \<times> system) + system" where
  "startSync ev s =
     (case loadAccounts ev (logger [Log Info [S ''Starting email synchronization...'']] s) of
        Inl (err, s1) \<Rightarrow>
          Inl (err, logger [Log Error [S ''Failed to start email synchronization:'', E err]] s1)
      | Inr s1 \<Rightarrow>
          Inr (logger [Log Info [S ''Email synchronization started successfully'']]
                 ((startPeriodicSync ev (start_connections ev (accounts s1) s1))
                    \<lparr>isRunning := True\<rparr>)))"

text \<open>\<open>clearInterval\<close> and \<open>connection.end()\<close>, on the objects they are given.\<close>

definition clearInterval :: "nat \<Rightarrow> (int \<times> bool) list \<Rightarrow> (int \<times> bool) list" where
  "clearInterval h ivs = (if h < length ivs then ivs[h := (fst (ivs ! h), False)] else ivs)"

definition request_op :: "nat \<Rightarrow> imap_op list \<Rightarrow> imap_object list \<Rightarrow> imap_object list" where
  "request_op h ops objs =
     (if h < length objs then objs[h := (objs ! h)\<lparr>imap_ops := imap_ops (objs ! h) @ ops\<rparr>]
      else objs)"

text \<open>The loop of \<open>stopSync\<close> over the entries of \<open>connections\<close>, each in its own \<open>try\<close>.\<close>

fun close_connections :: "env \<Rightarrow> (int \<times> nat) list \<Rightarrow> system \<Rightarrow> system" where
  "close_connections ev [] s = s"
| "close_connections ev ((accId, h) # rest) s =
     close_connections ev rest
       (logger
          (if imap_end_throws ev h
           then [Log Error [S ''Error closing connection for account '', N accId, S '':'',
                            E ImapFailed]]
           else [Log Info [S ''Closed IMAP connection for account '', N accId]])
          (s\<lparr>imaps := request_op h [End] (imaps s)\<rparr>))"

definition stopSync :: "env \<Rightarrow> system \<Rightarrow> system" where
  "stopSync ev s =
     (let s1 = (logger [Log Info [S ''Stopping email synchronization...'']] s)\<lparr>isRunning := False\<rparr>;
          s2 = (case syncInterval s1 of
                  None \<Rightarrow> s1
                | Some h \<Rightarrow> s1\<lparr>intervals := clearInterval h (intervals s1), syncInterval := None\<rparr>);
          s3 = close_connections ev (connections s2) s2
      in logger [Log Info [S ''Email synchronization stopped'']] (s3\<lparr>connections := []\<rparr>))"

text \<open>\<open>syncAllAccounts\<close>: \<open>syncAccount\<close> only writes a debug line.\<close>

fun syncAllAccounts :: "(int \<times> IMAPAccount) list \<Rightarrow> system \<Rightarrow> system" where
  "syncAllAccounts [] s = s"
| "syncAllAccounts ((accId, account) # rest) s =
     syncAllAccounts rest
       (if isActive account
        then logger [Log Debug [S ''Syncing account: '', S (name account)]] s else s)"

text \<open>
  The events that the runtime delivers to the listeners and callbacks registered above:
  the three events of an \<open>Imap\<close> object, the firing of a pending timeout (by its position
  among the pending ones) and of an interval.
\<close>

datatype event =
    ImapReady nat
  | ImapError nat
  | ImapEnd nat
  | TimerFired nat
  | IntervalFired nat

definition unregister :: "nat \<Rightarrow> (imap_object \<Rightarrow> imap_object) \<Rightarrow> system \<Rightarrow> system" where
  "unregister h f s = s\<lparr>imaps := (imaps s)[h := f (imaps s ! h)]\<rparr>"

text \<open>
  \<open>deliver\<close> runs the listener of an event. A \<open>once\<close> listener is gone after its first
  run; an event without a listener is ignored, except \<open>error\<close>, which an emitter
  without a listener throws: the process's \<open>uncaughtException\<close> handler then exits
  (\<open>None\<close>).
\<close>

fun deliver :: "env \<Rightarrow> event \<Rightarrow> system \<Rightarrow> system option" where
  "deliver ev (ImapReady h) s =
     (if h < length (imaps s) \<and> once_ready (imaps s ! h)
      then (let obj = imaps s ! h;
                s1 = logger [Log Info [S ''IMAP connection ready for account: '',
                                       S (name (imap_account obj))]]
                       (unregister h (\<lambda>ob. ob\<lparr>once_ready := False\<rparr>) s);
                s2 = s1\<lparr>connections := AList.update (imap_accountId obj) h (connections s1)\<rparr>
            in Some (s2\<lparr>imaps := request_op h (map OpenBox (folders (imap_account obj))) (imaps s2)\<rparr>))
      else Some s)"
| "deliver ev (ImapError h) s =
     (if h < length (imaps s)
      then (if once_error (imaps s ! h)
            then (let obj = imaps s ! h;
                      s1 = logger [Log Error [S ''IMAP error for account '',
                                              S (name (imap_account obj)), S '':'', E ImapFailed]]
                             (unregister h (\<lambda>ob. ob\<lparr>once_error := False\<rparr>) s)
                  in Some (s1\<lparr>connections := AList.delete (imap_accountId obj) (connections s1),
                               timers := timers s1 @
                                 [(30000, Reconnect (imap_accountId obj) (imap_account obj))]\<rparr>))
            else None)
      else Some s)"
| "deliver ev (ImapEnd h) s =
     (if h < length (imaps s) \<and> once_end (imaps s ! h)
      then (let obj = imaps s ! h;
                s1 = logger [Log Info [S ''IMAP connection ended for account: '',
                                       S (name (imap_account obj))]]
                       (unregister h (\<lambda>ob. ob\<lparr>once_end := False\<rparr>) s)
            in Some (s1\<lparr>connections := AList.delete (imap_accountId obj) (connections s1)\<rparr>))
      else Some s)"
| "deliver ev (TimerFired i) s =
     (if i < length (timers s)
      then (case snd (timers s ! i) of
              Reconnect accId account \<Rightarrow>
                (let s1 = s\<lparr>timers := take i (timers s) @ drop (Suc i) (timers s)\<rparr>
                 in Some (if isRunning s1 then startIDLEConnection ev accId account s1 else s1)))
      else Some s)"
| "deliver ev (IntervalFired h) s =
     (if h < length (intervals s) \<and> snd (intervals s ! h) \<and> isRunning s
      then Some (syncAllAccounts (accounts s)
                   (logger [Log Info [S ''Running periodic email sync...'']] s))
      else Some s)"

text \<open>A run of events; \<open>None\<close> when the process has exited.\<close>

fun run :: "env \<Rightarrow> event list \<Rightarrow> system \<Rightarrow> system option" where
  "run ev [] s = Some s"
| "run ev (e # es) s =
     (case deliver ev e s of
        None \<Rightarrow> None
      | Some s1 \<Rightarrow> run ev es s1)"

section \<open>The message fetcher\<close>

text \<open>
  The closure of one call of \<open>fetchEmails\<close>: its arguments, the array \<open>emails\<close>, the
  message handlers that are suspended at \<open>await simpleParser(buffer)\<close> (by the number of
  their message, with the buffer read), the number of messages seen, and the two \<open>once\<close>
  listeners of the fetch.
\<close>

record fetch_state =
  fetch_accountId :: int
  fetch_folderName :: string
  fetch_emails :: "EmailDocument list"
  fetch_parsing :: "(nat \<times> string) list"
  fetch_messages :: nat
  fetch_once_end :: bool
  fetch_once_error :: bool

definition fetchEmails :: "int \<Rightarrow> string \<Rightarrow> nat list \<Rightarrow> fetch_state option" where
  "fetchEmails accId folderName uids =
     (if uids = [] then None
      else Some \<lparr>fetch_accountId = accId, fetch_folderName = folderName, fetch_emails = [],
                 fetch_parsing = [], fetch_messages = 0, fetch_once_end = True,
                 fetch_once_error = True\<rparr>)"

text \<open>
  The events of a fetch: a message has ended, with the chunks of its body; the parser's
  promise for a message has settled and its handler resumes, drawing the values that
  \<open>parseEmail\<close> takes from its environment; the fetch has ended; the fetch has failed.
\<close>

datatype fetch_event =
    MessageEnd "string list"
  | ParseSettled nat draws
  | FetchEnd
  | FetchError

fun fetch_deliver :: "env \<Rightarrow> fetch_event \<Rightarrow> fetch_state \<times> system \<Rightarrow> (fetch_state \<times> system) option" where
  "fetch_deliver ev (MessageEnd chunks) (f, s) =
     Some (f\<lparr>fetch_parsing := fetch_parsing f @ [(fetch_messages f, concat chunks)],
             fetch_messages := Suc (fetch_messages f)\<rparr>, s)"
| "fetch_deliver ev (ParseSettled k d) (f, s) =
     (case map_of (fetch_parsing f) k of
        None \<Rightarrow> Some (f, s)
      | Some buffer \<Rightarrow>
          (let f1 = f\<lparr>fetch_parsing := AList.delete k (fetch_parsing f)\<rparr> in
           case simpleParser ev buffer of
             None \<Rightarrow> Some (f1, logger [Log Error [S ''Error parsing email:'', E ParserFailed]] s)
           | Some parsed \<Rightarrow>
               (case parseEmail d (accounts s) parsed (fetch_accountId f) (fetch_folderName f) of
                  (ls, None) \<Rightarrow> Some (f1, logger ls s)
                | (ls, Some emailDoc) \<Rightarrow>
                    Some (f1\<lparr>fetch_emails := fetch_emails f1 @ [emailDoc]\<rparr>, logger ls s))))"
| "fetch_deliver ev FetchEnd (f, s) =
     (if fetch_once_end f
      then Some (f\<lparr>fetch_once_end := False\<rparr>,
                 if fetch_emails f \<noteq> []
                 then logger [Log Info [S ''Processed '', N (int (length (fetch_emails f))),
                                        S '' emails from '', S (fetch_folderName f)]]
                        (processEmails ev (fetch_emails f) s)
                 else s)
      else Some (f, s))"
| "fetch_deliver ev FetchError (f, s) =
     (if fetch_once_error f
      then Some (f\<lparr>fetch_once_error := False\<rparr>,
                 logger [Log Error [S ''Error fetching emails:'', E ImapFailed]] s)
      else None)"

fun fetch_run :: "env \<Rightarrow> fetch_event list \<Rightarrow> fetch_state \<times> system \<Rightarrow> (fetch_state \<times> system) option" where
  "fetch_run ev [] fs = Some fs"
| "fetch_run ev (e # es) fs =
     (case fetch_deliver ev e fs of
        None \<Rightarrow> None
      | Some fs1 \<Rightarrow> fetch_run ev es fs1)"

section \<open>Auxiliary notions for the statements\<close>

text \<open>The value of \<open>d?.toISOString() || now\<close> when it does not throw.\<close>

definition date_or :: "jsdate option \<Rightarrow> string \<Rightarrow> string" where
  "date_or d now = (case iso_or_now d now of Inl err \<Rightarrow> now | Inr str \<Rightarrow> str)"

text \<open>The number of rows of \<open>emails\<close> with a given \<open>message_id\<close>.\<close>

definition count_message_id :: "string \<Rightarrow> emails_row list \<Rightarrow> nat" where
  "count_message_id k rows = length (filter (\<lambda>r. col_message_id r = k) rows)"

text \<open>The \<open>DO UPDATE SET\<close> of the upsert, on one row.\<close>

definition conflict_update :: "emails_row \<Rightarrow> emails_row \<Rightarrow> emails_row" where
  "conflict_update v r =
     (if col_message_id r = col_message_id v
      then r\<lparr>col_updated_at := col_updated_at v, col_ai_category := col_ai_category v,
             col_ai_confidence := col_ai_confidence v\<rparr>
      else r)"

text \<open>The state in which an iteration ends, by an exception or not.\<close>

definition state_of :: "(error \<times> system) + system \<Rightarrow> system" where
  "state_of r = (case r of Inl (err, s) \<Rightarrow> s | Inr s \<Rightarrow> s)"

text \<open>An account id that some row of \<open>email_accounts\<close> marks active.\<close>

definition active_in_table :: "accounts_row list \<Rightarrow> int \<Rightarrow> bool" where
  "active_in_table rows a = (\<exists>r\<in>set rows. col_id r = a \<and> col_is_active r = Some True)"

text \<open>
  Every \<open>Imap\<close> object, every pending reconnection and every entry of \<open>connections\<close>
  belongs to an account that the table marks active.
\<close>

definition only_active :: "accounts_row list \<Rightarrow> system \<Rightarrow> bool" where
  "only_active rows s =
     ((\<forall>obj\<in>set (imaps s). active_in_table rows (imap_accountId obj)) \<and>
      (\<forall>t\<in>set (timers s). case snd t of Reconnect a account \<Rightarrow> active_in_table rows a) \<and>
      (\<forall>c\<in>set (connections s). active_in_table rows (fst c) \<and> snd c < length (imaps s)))"

text \<open>
  The reference for a fetch batch: each message of the batch, with the chunks of its
  body and the values its parse draws, is parsed on its own; the batch to forward is the
  list of the documents of the messages that parse, in the order of the messages.
\<close>

definition parse_message ::
  "env \<Rightarrow> (int \<times> IMAPAccount) list \<Rightarrow> int \<Rightarrow> string \<Rightarrow> string list \<times> draws
     \<Rightarrow> log_entry list \<times> EmailDocument option" where
  "parse_message ev accs a folderName m =
     (case simpleParser ev (concat (fst m)) of
        None \<Rightarrow> ([Log Error [S ''Error parsing email:'', E ParserFailed]], None)
      | Some parsed \<Rightarrow> parseEmail (snd m) accs parsed a folderName)"

fun parsed_batch ::
  "env \<Rightarrow> (int \<times> IMAPAccount) list \<Rightarrow> int \<Rightarrow> string \<Rightarrow> (string list \<times> draws) list
     \<Rightarrow> EmailDocument list" where
  "parsed_batch ev accs a folderName [] = []"
| "parsed_batch ev accs a folderName (m # ms) =
     (case snd (parse_message ev accs a folderName m) of
        None \<Rightarrow> parsed_batch ev accs a folderName ms
      | Some emailDoc \<Rightarrow> emailDoc # parsed_batch ev accs a folderName ms)"

fun parse_logs ::
  "env \<Rightarrow> (int \<times> IMAPAccount) list \<Rightarrow> int \<Rightarrow> string \<Rightarrow> (string list \<times> draws) list
     \<Rightarrow> log_entry list" where
  "parse_logs ev accs a folderName [] = []"
| "parse_logs ev accs a folderName (m # ms) =
     fst (parse_message ev accs a folderName m) @ parse_logs ev accs a folderName ms"

text \<open>
  The schedule in which the parse of each message settles before the next event of the
  fetch: message \<open>k\<close> ends, its parse settles, message \<open>k + 1\<close> ends, and so on.
\<close>

fun in_order :: "(string list \<times> draws) list \<Rightarrow> nat \<Rightarrow> fetch_event list" where
  "in_order [] k = []"
| "in_order (m # ms) k = MessageEnd (fst m) # ParseSettled k (snd m) # in_order ms (Suc k)"

section \<open>Concrete inputs\<close>

definition acct1 :: IMAPAccount where
  "acct1 = \<lparr>acc_id = 1, name = ''work'', host = ''imap.example.com'', port = 993,
            secure = True, username = ''ann'', password = ''secret'',
            folders = [''INBOX''], isActive = True\<rparr>"

text \<open>A runtime whose \<open>JSON.parse\<close> knows one text, an object without \<open>confidence\<close>.\<close>

definition json_rt :: js_runtime where
  \<open>json_rt =
     \<lparr>JSON_parse = (\<lambda>t. if t = ''{"category":"Spam","reasoning":"promotional"}''
                         then Some (JObj [(''category'', JStr ''Spam''),
                                          (''reasoning'', JStr ''promotional'')])
                         else None),
      coerce_to_number = (\<lambda>v. NaN)\<rparr>\<close>

definition spam_ai :: AIService where
  \<open>spam_ai =
     \<lparr>provider = ''openai'',
      openai = Some (\<lambda>n p. OpenAIContent (Some ''{"category":"Spam","reasoning":"promotional"}'')),
      anthropic = None\<rparr>\<close>

definition no_ai :: AIService where
  "no_ai = \<lparr>provider = ''openai'', openai = None, anthropic = None\<rparr>"

text \<open>A message without identifier and date, and one with both.\<close>

definition mail_bare :: ParsedMail where
  "mail_bare =
     \<lparr>mail_messageId = None, mail_from = None, mail_to = None, mail_cc = None,
      mail_bcc = None, mail_attachments = None, mail_subject = Some ''Hello'',
      mail_date = None, mail_receivedDate = None, mail_text = Some ''Hi there'',
      mail_flags = None, mail_html = None\<rparr>"

definition mail1 :: ParsedMail where
  "mail1 =
     \<lparr>mail_messageId = Some ''<m1@example.com>'',
      mail_from = Some (Some [\<lparr>address = Some ''bob@example.com'', addr_name = Some ''Bob''\<rparr>]),
      mail_to = None, mail_cc = None, mail_bcc = None, mail_attachments = None,
      mail_subject = Some ''Hello'',
      mail_date = Some (ValidDate ''2024-01-01T00:00:00.000Z''),
      mail_receivedDate = None, mail_text = Some ''Hi there'',
      mail_flags = None, mail_html = None\<rparr>"

definition draws1 :: draws where
  "draws1 = \<lparr>uuid = ''u1'', now_date = ''t1'', now_receivedDate = ''t1'',
             now_createdAt = ''t1'', now_updatedAt = ''t1''\<rparr>"

definition draws2 :: draws where
  "draws2 = \<lparr>uuid = ''u2'', now_date = ''t2'', now_receivedDate = ''t2'',
             now_createdAt = ''t2'', now_updatedAt = ''t2''\<rparr>"

text \<open>
  The documents that \<open>parseEmail\<close> makes of \<open>mail1\<close> in two fetch bursts, with the
  values drawn in each.
\<close>

definition doc1 :: EmailDocument where
  "doc1 =
     \<lparr>id' = ''u1'', messageId = ''<m1@example.com>'', accountId = 1, accountName = ''work'',
      folder = ''INBOX'', subject = ''Hello'', fromEmail = ''bob@example.com'',
      fromName = ''Bob'', toEmails = [], ccEmails = [], bccEmails = [],
      date = ''2024-01-01T00:00:00.000Z'', receivedDate = ''t1'', size' = 8, flags = [],
      bodyText = ''Hi there'', bodyHtml = [], attachments = [],
      aiCategory = Defined (JStr ''Not Interested''), aiConfidence = Fin 0.5,
      isRead = False, isImportant = False, createdAt = ''t1'', updatedAt = ''t1''\<rparr>"

definition doc2 :: EmailDocument where
  "doc2 = doc1\<lparr>id' := ''u2'', receivedDate := ''t2'', createdAt := ''t2'', updatedAt := ''t2''\<rparr>"

text \<open>
  An environment in which no request fails: no AI provider is configured, the vector
  collection is initialised, no Slack or webhook URL is set, and the mail parser knows the
  raw texts \<open>raw1\<close> and \<open>raw3\<close>.
\<close>

definition mail3 :: ParsedMail where
  "mail3 = mail1\<lparr>mail_messageId := Some ''<m3@example.com>'', mail_subject := Some ''Third''\<rparr>"

definition quiet_env :: env where
  "quiet_env =
     \<lparr>ai = no_ai, rt = json_rt,
      es_get_fails = (\<lambda>n i. False),
      es_index_fails = (\<lambda>n email. False),
      db_query_fails = (\<lambda>n q. False),
      vector_collection = True,
      vector_add_fails = (\<lambda>n email. False),
      slack_webhookUrl = [],
      slack_post_fails = (\<lambda>n email. False),
      webhook_webhookUrl = [],
      webhook_post_fails = (\<lambda>n email. False),
      imap_start_throws = (\<lambda>n account. False),
      imap_end_throws = (\<lambda>h. False),
      simpleParser = (\<lambda>buffer. if buffer = ''raw1'' then Some mail1
                               else if buffer = ''raw3'' then Some mail3 else None),
      intervalMinutes = 5\<rparr>"

text \<open>The service as constructed: no account, no connection, not running, empty stores.\<close>

definition system0 :: system where
  "system0 =
     \<lparr>accounts = [], connections = [], isRunning = False, syncInterval = None, imaps = [],
      timers = [], intervals = [], db_email_accounts = [], db_emails = [], es_index = [],
      calls = [], logs = []\<rparr>"

text \<open>A second message, and an environment whose AI provider rejects every request.\<close>

definition draws3 :: draws where
  "draws3 = \<lparr>uuid = ''u3'', now_date = ''t3'', now_receivedDate = ''t3'',
             now_createdAt = ''t3'', now_updatedAt = ''t3''\<rparr>"

definition doc3 :: EmailDocument where
  "doc3 = doc1\<lparr>id' := ''u3'', messageId := ''<m3@example.com>'', subject := ''Third'',
               receivedDate := ''t3'', createdAt := ''t3'', updatedAt := ''t3''\<rparr>"




text \<open>An environment whose search index refuses the document \<open>u1\<close>, and one whose database is down.\<close>

definition index_down_env :: env where
  "index_down_env = quiet_env\<lparr>es_index_fails := (\<lambda>n email. id' email = ''u1'')\<rparr>"

definition db_down_env :: env where
  "db_down_env = quiet_env\<lparr>db_query_fails := (\<lambda>n q. True)\<rparr>"

text \<open>
  Two configured accounts: 1 is active, 2 is not. The service is constructed over this
  table.
\<close>

definition row_active :: accounts_row where
  "row_active =
     \<lparr>col_id = 1, col_name = ''work'', col_host = ''imap.example.com'', col_port = 993,
      col_secure = True, col_username = ''ann'', col_password = ''secret'',
      col_folders = [''INBOX''], col_is_active = Some True\<rparr>"

definition row_inactive :: accounts_row where
  "row_inactive = row_active\<lparr>col_id := 2, col_name := ''old'', col_is_active := Some False\<rparr>"

definition system_ab :: system where
  "system_ab = system0\<lparr>db_email_accounts := [row_active, row_inactive]\<rparr>"

text \<open>
  The states that \<open>startSync\<close> and then the \<open>ready\<close> event of the connection of
  account 1 lead to (\<open>startSync_system_ab\<close>, \<open>ready_sys_started\<close>).
\<close>

definition sys_started :: system where
  "sys_started =
     \<lparr>accounts = [(1, acct1)], connections = [], isRunning = True, syncInterval = Some 0,
      imaps = [\<lparr>imap_accountId = 1, imap_account = acct1, once_ready = True,
                once_error = True, once_end = True, imap_ops = [Connect]\<rparr>],
      timers = [], intervals = [(300000, True)],
      db_email_accounts = [row_active, row_inactive], db_emails = [], es_index = [],
      calls = [Query SelectActiveAccounts],
      logs = [Log Info [S ''Starting email synchronization...''],
              Log Info [S ''Loaded '', N 1, S '' active email accounts''],
              Log Info [S ''Email synchronization started successfully'']]\<rparr>"

definition sys_running :: system where
  "sys_running =
     sys_started
       \<lparr>connections := [(1, 0)],
        imaps := [\<lparr>imap_accountId = 1, imap_account = acct1, once_ready = False,
                   once_error = True, once_end = True,
                   imap_ops = [Connect, OpenBox ''INBOX'']\<rparr>],
        logs := logs sys_started @
                  [Log Info [S ''IMAP connection ready for account: '', S ''work'']]\<rparr>"

text \<open>
  A fetch for account 1 whose single message, \<open>raw1\<close>, has been parsed into \<open>doc1\<close>
  and whose \<open>end\<close> event is still to come.
\<close>

definition fetch_parsed :: fetch_state where
  "fetch_parsed =
     \<lparr>fetch_accountId = 1, fetch_folderName = ''INBOX'', fetch_emails = [doc1],
      fetch_parsing = [], fetch_messages = 1, fetch_once_end = True,
      fetch_once_error = True\<rparr>"

text \<open>The state after an \<open>error\<close> event of the connection of account 1 (\<open>error_sys_running\<close>).\<close>

definition sys_failed :: system where
  "sys_failed =
     sys_running
       \<lparr>connections := [],
        imaps := [\<lparr>imap_accountId = 1, imap_account = acct1, once_ready = False,
                   once_error = False, once_end = True,
                   imap_ops = [Connect, OpenBox ''INBOX'']\<rparr>],
        timers := [(30000, Reconnect 1 acct1)],
        logs := logs sys_running @
                  [Log Error [S ''IMAP error for account '', S ''work'', S '':'', E ImapFailed]]\<rparr>"

text \<open>The running service after \<open>stopSync\<close> has returned.\<close>

definition sys_stopped :: system where
  "sys_stopped = stopSync quiet_env sys_running"

text \<open>
  A fetch of three messages for account 1: \<open>raw1\<close> and \<open>raw3\<close> parse, \<open>raw2\<close> does
  not. In \<open>schedule_late\<close> the fetch ends while the parse of the third message is still
  pending; in \<open>schedule_reversed\<close> the parses settle in the reverse order.
\<close>

definition three_messages :: "(string list \<times> draws) list" where
  "three_messages = [([''raw1''], draws1), ([''raw2''], draws2), ([''raw3''], draws3)]"

definition schedule_late :: "fetch_event list" where
  "schedule_late =
     [MessageEnd [''raw1''], ParseSettled 0 draws1,
      MessageEnd [''raw2''], ParseSettled 1 draws2,
      MessageEnd [''raw3''], FetchEnd, ParseSettled 2 draws3]"

definition schedule_reversed :: "fetch_event list" where
  "schedule_reversed =
     [MessageEnd [''raw1''], MessageEnd [''raw2''], MessageEnd [''raw3''],
      ParseSettled 2 draws3, ParseSettled 1 draws2, ParseSettled 0 draws1, FetchEnd]"

definition fetch_three :: fetch_state where
  "fetch_three = the (fetchEmails 1 ''INBOX'' [1, 2, 3])"

section \<open>The concrete inputs, evaluated\<close>

lemma parse_mail1_first: "parseEmail draws1 [(1, acct1)] mail1 1 ''INBOX'' = ([], Some doc1)"
  by (simp add: parseEmail_def Let_def mail1_def draws1_def doc1_def acct1_def iso_or_now_def
      or_default_def first_address_def address_list_def)

lemma parse_mail1_second: "parseEmail draws2 [(1, acct1)] mail1 1 ''INBOX'' = ([], Some doc2)"
  by (simp add: parseEmail_def Let_def mail1_def draws2_def doc1_def doc2_def acct1_def
      iso_or_now_def or_default_def first_address_def address_list_def)

lemma parse_mail3: "parseEmail draws3 [(1, acct1)] mail3 1 ''INBOX'' = ([], Some doc3)"
  by (simp add: parseEmail_def Let_def mail1_def mail3_def draws3_def doc1_def doc3_def acct1_def
      iso_or_now_def or_default_def first_address_def address_list_def)

lemma doc1_fields:
  "id' doc1 = ''u1''" "messageId doc1 = ''<m1@example.com>''" "subject doc1 = ''Hello''"
  "bodyText doc1 = ''Hi there''" "fromEmail doc1 = ''bob@example.com''"
  "doc1\<lparr>aiCategory := Defined (JStr ''Not Interested''), aiConfidence := Fin 0.5\<rparr> = doc1"
  "doc1\<lparr>aiCategory := Defined (JStr ''Not Interested''), aiConfidence := Fin (1 / 2)\<rparr> = doc1"
  by (simp_all add: doc1_def)

lemma doc2_fields:
  "id' doc2 = ''u2''" "messageId doc2 = ''<m1@example.com>''" "subject doc2 = ''Hello''"
  "bodyText doc2 = ''Hi there''" "fromEmail doc2 = ''bob@example.com''"
  "doc2\<lparr>aiCategory := Defined (JStr ''Not Interested''), aiConfidence := Fin 0.5\<rparr> = doc2"
  "doc2\<lparr>aiCategory := Defined (JStr ''Not Interested''), aiConfidence := Fin (1 / 2)\<rparr> = doc2"
  by (simp_all add: doc1_def doc2_def)

lemma doc3_fields:
  "id' doc3 = ''u3''" "messageId doc3 = ''<m3@example.com>''" "subject doc3 = ''Third''"
  "bodyText doc3 = ''Hi there''" "fromEmail doc3 = ''bob@example.com''"
  "doc3\<lparr>aiCategory := Defined (JStr ''Not Interested''), aiConfidence := Fin 0.5\<rparr> = doc3"
  "doc3\<lparr>aiCategory := Defined (JStr ''Not Interested''), aiConfidence := Fin (1 / 2)\<rparr> = doc3"
  by (simp_all add: doc1_def doc3_def)

lemmas sync_defs =
  startSync_def loadAccounts_def select_active_accounts_def account_of_row_def
  startPeriodicSync_def startIDLEConnection_def logger_def record_call_def Let_def

lemmas ab_defs =
  quiet_env_def system_ab_def system0_def row_active_def row_inactive_def acct1_def

lemma startSync_system_ab: "startSync quiet_env system_ab = Inr sys_started"
  by (simp add: sync_defs ab_defs sys_started_def)

lemma ready_sys_started: "deliver quiet_env (ImapReady 0) sys_started = Some sys_running"
  by (simp add: sys_started_def sys_running_def logger_def Let_def unregister_def
      request_op_def acct1_def)

lemma error_sys_running: "deliver quiet_env (ImapError 0) sys_running = Some sys_failed"
  by (simp add: sys_failed_def sys_started_def sys_running_def logger_def Let_def unregister_def
      acct1_def)

lemma sys_running_fields:
  "accounts sys_running = [(1, acct1)]" "es_index sys_running = []"
  "calls sys_running = [Query SelectActiveAccounts]" "db_emails sys_running = []"
  "db_email_accounts sys_running = [row_active, row_inactive]"
  by (simp_all add: sys_running_def sys_started_def)

section \<open>categorizeEmail\<close>

lemma clamp_in_unit_interval:
  "x \<noteq> NaN \<Longrightarrow> in_unit_interval (Math_min (Math_max x (Fin 0)) (Fin 1))"
  by (cases x) auto

lemma parse_categorization_confidence:
  assumes "parse_categorization jrt content = Some c"
  shows "confidence c = NaN \<or> in_unit_interval (confidence c)"
proof -
  from assms obtain x where c: "confidence c = Math_min (Math_max x (Fin 0)) (Fin 1)"
    by (auto simp: parse_categorization_def split: option.splits)
  show ?thesis
  proof (cases "x = NaN")
    case True
    with c show ?thesis by simp
  next
    case False
    with c clamp_in_unit_interval [of x] show ?thesis by simp
  qed
qed

lemma categorizeWithOpenAI_parsed:
  assumes "categorizeWithOpenAI svc jrt n p = (ls, Inr c)"
  shows "\<exists>content. parse_categorization jrt content = Some c"
  using assms
  by (auto simp: categorizeWithOpenAI_def
      split: if_splits option.splits openai_outcome.splits)

lemma categorizeWithAnthropic_parsed:
  assumes "categorizeWithAnthropic svc jrt n p = (ls, Inr c)"
  shows "\<exists>content. parse_categorization jrt content = Some c"
  using assms
  by (auto simp: categorizeWithAnthropic_def
      split: if_splits option.splits anthropic_outcome.splits list.splits)

lemma categorize_try_confidence:
  assumes "categorize_try svc jrt n subj body sender = (ls, Inr c)"
  shows "confidence c = NaN \<or> in_unit_interval (confidence c)"
proof -
  from assms have "\<exists>content. parse_categorization jrt content = Some c"
    using categorizeWithOpenAI_parsed categorizeWithAnthropic_parsed
    by (simp add: categorize_try_def Let_def split: if_splits)
  then show ?thesis
    using parse_categorization_confidence by blast
qed


lemma categorizeEmail_confidence:
  "confidence (snd (categorizeEmail svc jrt n subj body sender)) = NaN \<or>
   in_unit_interval (confidence (snd (categorizeEmail svc jrt n subj body sender)))"
proof (cases "categorize_try svc jrt n subj body sender")
  case (Pair ls r)
  show ?thesis
  proof (cases r)
    case (Inl err)
    with Pair show ?thesis
      by (simp add: categorizeEmail_def default_categorization_def)
  next
    case (Inr c)
    with Pair categorize_try_confidence [of svc jrt n subj body sender ls c] show ?thesis
      by (simp add: categorizeEmail_def)
  qed
qed

text \<open>
  Claim C10. For every input and every behaviour of the provider, \<open>categorizeEmail\<close>
  returns a categorisation and does not raise: it is a total function whose errors all
  end in the default (\<open>categorizeEmail_on_error\<close>). The clamp \<open>Math.min(Math.max(c, 0), 1)\<close>
  puts every number in \<open>[0, 1]\<close> (\<open>clamp_in_unit_interval\<close>) but lets \<open>NaN\<close> through
  (\<open>categorizeEmail_confidence\<close>): when the provider answers with JSON that has no
  \<open>confidence\<close>, the confidence returned is \<open>NaN\<close>, which is not in \<open>[0, 1]\<close>.
\<close>

theorem categorizeEmail_missing_confidence:
  \<open>categorizeEmail spam_ai json_rt 0 ''Offer'' ''Buy now'' ''ads@example.com'' =
     ([], \<lparr>category = Defined (JStr ''Spam''), confidence = NaN,
           reasoning = Defined (JStr ''promotional'')\<rparr>) \<and>
   \<not> in_unit_interval
       (confidence (snd (categorizeEmail spam_ai json_rt 0 ''Offer'' ''Buy now'' ''ads@example.com'')))\<close>
  by (simp add: categorizeEmail_def categorize_try_def categorizeWithOpenAI_def spam_ai_def
      json_rt_def parse_categorization_def)

section \<open>parseEmail\<close>

text \<open>
  Claim C5, as amended. Two parses of the same raw message, for the same account and
  folder, give documents that differ at most in the six fields derived from what each
  parse draws: the \<open>id\<close> is the UUID drawn, the \<open>messageId\<close> is the server's identifier
  or else that UUID, \<open>date\<close> and \<open>receivedDate\<close> are the message's or else the clock's
  reading, \<open>createdAt\<close> and \<open>updatedAt\<close> are the clock's reading. Every other field is
  the same in both.
\<close>

theorem parseEmail_twice:
  assumes "parseEmail d1 accs parsed accId folderName = (ls1, Some docA)"
    and "parseEmail d2 accs parsed accId folderName = (ls2, Some docB)"
  shows "docB = docA\<lparr>id' := uuid d2,
                     messageId := or_default (mail_messageId parsed) (uuid d2),
                     date := date_or (mail_date parsed) (now_date d2),
                     receivedDate := date_or (mail_receivedDate parsed) (now_receivedDate d2),
                     createdAt := now_createdAt d2,
                     updatedAt := now_updatedAt d2\<rparr>"
  using assms
  by (auto simp: parseEmail_def Let_def date_or_def split: option.splits sum.splits)

theorem parseEmail_twice_witness:
  "snd (parseEmail draws1 [(1, acct1)] mail_bare 1 ''INBOX'') \<noteq> None \<and>
   snd (parseEmail draws2 [(1, acct1)] mail_bare 1 ''INBOX'') \<noteq> None \<and>
   the (snd (parseEmail draws2 [(1, acct1)] mail_bare 1 ''INBOX'')) =
     (the (snd (parseEmail draws1 [(1, acct1)] mail_bare 1 ''INBOX'')))
       \<lparr>id' := ''u2'', messageId := ''u2'', date := ''t2'', receivedDate := ''t2'',
        createdAt := ''t2'', updatedAt := ''t2''\<rparr>"
proof -
  obtain ls1 docA where p1: "parseEmail draws1 [(1, acct1)] mail_bare 1 ''INBOX'' = (ls1, Some docA)"
    by (simp add: parseEmail_def Let_def mail_bare_def iso_or_now_def)
  obtain ls2 docB where p2: "parseEmail draws2 [(1, acct1)] mail_bare 1 ''INBOX'' = (ls2, Some docB)"
    by (simp add: parseEmail_def Let_def mail_bare_def iso_or_now_def)
  from parseEmail_twice [OF p1 p2] p1 p2 show ?thesis
    by (simp add: draws2_def mail_bare_def or_default_def date_or_def iso_or_now_def)
qed

text \<open>
  Claim C5, as stated, fails: a message without identifier and date gets the identifier
  \<open>u1\<close> and the date \<open>t1\<close> in one parse, \<open>u2\<close> and \<open>t2\<close> in the next.
\<close>

theorem parseEmail_not_deterministic:
  "map_option messageId (snd (parseEmail draws1 [(1, acct1)] mail_bare 1 ''INBOX'')) = Some ''u1'' \<and>
   map_option messageId (snd (parseEmail draws2 [(1, acct1)] mail_bare 1 ''INBOX'')) = Some ''u2'' \<and>
   map_option date (snd (parseEmail draws1 [(1, acct1)] mail_bare 1 ''INBOX'')) = Some ''t1'' \<and>
   map_option date (snd (parseEmail draws2 [(1, acct1)] mail_bare 1 ''INBOX'')) = Some ''t2'' \<and>
   parseEmail draws1 [(1, acct1)] mail_bare 1 ''INBOX'' \<noteq>
   parseEmail draws2 [(1, acct1)] mail_bare 1 ''INBOX''"
  by (simp add: parseEmail_def Let_def mail_bare_def iso_or_now_def draws1_def draws2_def
      or_default_def)

section \<open>storeEmailInDatabase\<close>

lemma upsert_email_ids:
  "map col_message_id (upsert_email v rows) =
     (if col_message_id v \<in> col_message_id ` set rows then map col_message_id rows
      else map col_message_id rows @ [col_message_id v])"
  by (induction rows) auto

lemma upsert_email_distinct:
  "distinct (map col_message_id rows) \<Longrightarrow> distinct (map col_message_id (upsert_email v rows))"
  by (simp add: upsert_email_ids)

lemma upsert_email_member:
  "col_message_id v \<in> col_message_id ` set (upsert_email v rows)"
  by (induction rows) auto

lemma count_message_id_distinct:
  "distinct (map col_message_id rows) \<Longrightarrow>
   count_message_id k rows = (if k \<in> col_message_id ` set rows then 1 else 0)"
  by (induction rows) (auto simp: count_message_id_def)

lemma upsert_email_conflict:
  "distinct (map col_message_id rows) \<Longrightarrow> col_message_id v \<in> col_message_id ` set rows \<Longrightarrow>
   upsert_email v rows = map (conflict_update v) rows"
proof (induction rows)
  case Nil
  then show ?case by simp
next
  case (Cons r rows)
  show ?case
  proof (cases "col_message_id r = col_message_id v")
    case True
    with Cons.prems have "col_message_id v \<notin> col_message_id ` set rows"
      by auto
    then have "\<forall>x\<in>set rows. col_message_id x \<noteq> col_message_id v"
      by (metis imageI)
    then have rest: "map (conflict_update v) rows = rows"
      by (simp add: conflict_update_def map_idI)
    have "conflict_update v r =
            r\<lparr>col_updated_at := col_updated_at v, col_ai_category := col_ai_category v,
              col_ai_confidence := col_ai_confidence v\<rparr>"
      using True by (simp add: conflict_update_def)
    with True rest show ?thesis by simp
  next
    case False
    with Cons show ?thesis by (auto simp: conflict_update_def)
  qed
qed

lemma storeEmailInDatabase_rows:
  "db_emails (storeEmailInDatabase ev email s) =
     (if db_query_fails ev (length (calls s)) (UpsertEmail email) then db_emails s
      else upsert_email (insert_values email) (db_emails s))"
  by (simp add: storeEmailInDatabase_def Let_def record_call_def logger_def)

lemma storeEmailInDatabase_calls:
  "calls (storeEmailInDatabase ev email s) = calls s @ [Query (UpsertEmail email)]"
  by (simp add: storeEmailInDatabase_def Let_def record_call_def logger_def)

lemma insert_values_message_id [simp]: "col_message_id (insert_values email) = messageId email"
  by (simp add: insert_values_def)

lemma storeEmailInDatabase_distinct:
  "distinct (map col_message_id (db_emails s)) \<Longrightarrow>
   distinct (map col_message_id (db_emails (storeEmailInDatabase ev email s)))"
  by (simp add: storeEmailInDatabase_rows upsert_email_distinct)

lemma storeEmailInDatabase_logs:
  "logs (storeEmailInDatabase ev email s) =
     (if db_query_fails ev (length (calls s)) (UpsertEmail email)
      then logs s @ [Log Error [S ''Error storing email in database:'', E QueryFailed]]
      else logs s)"
  by (simp add: storeEmailInDatabase_def Let_def record_call_def logger_def)

lemma count_message_id_le_one:
  "distinct (map col_message_id rows) \<Longrightarrow> count_message_id k rows \<le> 1"
  by (simp add: count_message_id_distinct)

text \<open>
  Claim C3, as amended. The table \<open>emails\<close> holds at most one row per \<open>message_id\<close>
  (the column is \<open>UNIQUE\<close>), and \<open>storeEmailInDatabase\<close> keeps it so. Run it twice for
  the same \<open>message_id\<close>. A statement that the database refuses is caught and logged and
  leaves the table as it was. When at least one of the two statements is executed, the
  table has exactly one row with that \<open>message_id\<close> afterwards. When the first is
  executed, there is exactly one such row after it, and the second run adds no row: if
  executed it only sets \<open>updated_at\<close>, \<open>ai_category\<close> and \<open>ai_confidence\<close> of the row
  with that \<open>message_id\<close>.
\<close>

theorem storeEmailInDatabase_twice:
  assumes uniq: "distinct (map col_message_id (db_emails s))"
    and same: "messageId email2 = messageId email1"
    and s1: "s1 = storeEmailInDatabase ev email1 s"
    and s2: "s2 = storeEmailInDatabase ev email2 s1"
    and r1: "refused1 = db_query_fails ev (length (calls s)) (UpsertEmail email1)"
    and r2: "refused2 = db_query_fails ev (length (calls s1)) (UpsertEmail email2)"
  shows "distinct (map col_message_id (db_emails s1)) \<and>
         distinct (map col_message_id (db_emails s2)) \<and>
         count_message_id (messageId email1) (db_emails s2) \<le> 1 \<and>
         (\<not> refused1 \<or> \<not> refused2 \<longrightarrow>
            count_message_id (messageId email1) (db_emails s2) = 1) \<and>
         (refused1 \<longrightarrow>
            db_emails s1 = db_emails s \<and>
            logs s1 = logs s @ [Log Error [S ''Error storing email in database:'', E QueryFailed]]) \<and>
         (refused2 \<longrightarrow>
            db_emails s2 = db_emails s1 \<and>
            logs s2 = logs s1 @ [Log Error [S ''Error storing email in database:'', E QueryFailed]]) \<and>
         (\<not> refused1 \<longrightarrow>
            count_message_id (messageId email1) (db_emails s1) = 1 \<and>
            length (db_emails s2) = length (db_emails s1) \<and>
            (\<not> refused2 \<longrightarrow>
               db_emails s2 = map (conflict_update (insert_values email2)) (db_emails s1)))"
proof -
  have d1: "distinct (map col_message_id (db_emails s1))"
    using uniq s1 by (simp add: storeEmailInDatabase_distinct)
  have d2: "distinct (map col_message_id (db_emails s2))"
    using d1 s2 by (simp add: storeEmailInDatabase_distinct)
  have le: "count_message_id (messageId email1) (db_emails s2) \<le> 1"
    using d2 by (rule count_message_id_le_one)
  have ref1: "db_emails s1 = db_emails s \<and>
      logs s1 = logs s @ [Log Error [S ''Error storing email in database:'', E QueryFailed]]"
    if refused1
    using that s1 r1 by (simp add: storeEmailInDatabase_rows storeEmailInDatabase_logs)
  have ref2: "db_emails s2 = db_emails s1 \<and>
      logs s2 = logs s1 @ [Log Error [S ''Error storing email in database:'', E QueryFailed]]"
    if refused2
    using that s2 r2 by (simp add: storeEmailInDatabase_rows storeEmailInDatabase_logs)
  have run1: "count_message_id (messageId email1) (db_emails s1) = 1 \<and>
      length (db_emails s2) = length (db_emails s1) \<and>
      (\<not> refused2 \<longrightarrow>
         db_emails s2 = map (conflict_update (insert_values email2)) (db_emails s1))"
    if "\<not> refused1"
  proof -
    have rows1: "db_emails s1 = upsert_email (insert_values email1) (db_emails s)"
      using s1 r1 that by (simp add: storeEmailInDatabase_rows)
    have m1: "messageId email1 \<in> col_message_id ` set (db_emails s1)"
      using rows1 upsert_email_member [of "insert_values email1" "db_emails s"] by simp
    have c1: "count_message_id (messageId email1) (db_emails s1) = 1"
      using d1 m1 by (simp add: count_message_id_distinct)
    have rows2: "db_emails s2 =
        (if refused2 then db_emails s1
         else map (conflict_update (insert_values email2)) (db_emails s1))"
      using s2 r2 d1 m1 same
      by (simp add: storeEmailInDatabase_rows upsert_email_conflict)
    then have l2: "length (db_emails s2) = length (db_emails s1)"
      by simp
    from c1 l2 rows2 show ?thesis by simp
  qed
  have one: "count_message_id (messageId email1) (db_emails s2) = 1"
    if "\<not> refused1 \<or> \<not> refused2"
  proof (cases refused2)
    case False
    have "db_emails s2 = upsert_email (insert_values email2) (db_emails s1)"
      using s2 r2 False by (simp add: storeEmailInDatabase_rows)
    then have "messageId email1 \<in> col_message_id ` set (db_emails s2)"
      using upsert_email_member [of "insert_values email2" "db_emails s1"] same by simp
    with d2 show ?thesis by (simp add: count_message_id_distinct)
  next
    case True
    with that have n1: "\<not> refused1" by simp
    from ref2 [OF True] run1 [OF n1] show ?thesis by simp
  qed
  from d1 d2 le one ref1 ref2 run1 show ?thesis
    by (intro conjI impI) auto
qed

theorem storeEmailInDatabase_twice_witness:
  "distinct (map col_message_id (db_emails sys_running)) \<and>
   messageId doc2 = messageId doc1 \<and>
   map col_id (db_email_accounts sys_running) = [accountId doc1, 2] \<and>
   \<not> db_query_fails quiet_env (length (calls sys_running)) (UpsertEmail doc1) \<and>
   \<not> db_query_fails quiet_env
       (length (calls (storeEmailInDatabase quiet_env doc1 sys_running))) (UpsertEmail doc2) \<and>
   count_message_id ''<m1@example.com>''
     (db_emails (storeEmailInDatabase quiet_env doc2 (storeEmailInDatabase quiet_env doc1 sys_running))) = 1 \<and>
   length (db_emails (storeEmailInDatabase quiet_env doc2 (storeEmailInDatabase quiet_env doc1 sys_running))) = 1 \<and>
   map col_updated_at
     (db_emails (storeEmailInDatabase quiet_env doc2 (storeEmailInDatabase quiet_env doc1 sys_running))) = [''t2''] \<and>
   map col_created_at
     (db_emails (storeEmailInDatabase quiet_env doc2 (storeEmailInDatabase quiet_env doc1 sys_running))) = [''t1''] \<and>
   db_query_fails db_down_env (length (calls sys_running)) (UpsertEmail doc1) \<and>
   db_query_fails db_down_env
       (length (calls (storeEmailInDatabase db_down_env doc1 sys_running))) (UpsertEmail doc2) \<and>
   db_emails (storeEmailInDatabase db_down_env doc2 (storeEmailInDatabase db_down_env doc1 sys_running)) =
     db_emails sys_running"
proof -
  let ?s1 = "storeEmailInDatabase quiet_env doc1 sys_running"
  let ?s2 = "storeEmailInDatabase quiet_env doc2 ?s1"
  let ?t1 = "storeEmailInDatabase db_down_env doc1 sys_running"
  let ?t2 = "storeEmailInDatabase db_down_env doc2 ?t1"
  have h1: "distinct (map col_message_id (db_emails sys_running))"
    by (simp add: sys_running_fields)
  have h2: "messageId doc2 = messageId doc1"
    by (simp add: doc2_def)
  have fk: "map col_id (db_email_accounts sys_running) = [accountId doc1, 2]"
    by (simp add: sys_running_fields row_active_def row_inactive_def doc1_def)
  have h3: "\<not> db_query_fails quiet_env (length (calls sys_running)) (UpsertEmail doc1)"
    by (simp add: quiet_env_def)
  have mid: "messageId doc1 = ''<m1@example.com>''"
    by (simp add: doc1_def)
  have rows1: "db_emails ?s1 = [insert_values doc1]"
    by (simp add: storeEmailInDatabase_rows quiet_env_def sys_running_fields)
  have ok2: "\<not> db_query_fails quiet_env (length (calls ?s1)) (UpsertEmail doc2)"
    by (simp add: quiet_env_def)
  note twice = storeEmailInDatabase_twice [OF h1 h2 refl refl refl refl, of quiet_env]
  from twice h3 have "count_message_id (messageId doc1) (db_emails ?s2) = 1"
    by blast
  with mid have c: "count_message_id ''<m1@example.com>'' (db_emails ?s2) = 1"
    by simp
  from twice h3 ok2
  have "db_emails ?s2 = map (conflict_update (insert_values doc2)) (db_emails ?s1)"
    by blast
  with rows1
  have rows2: "db_emails ?s2 = [conflict_update (insert_values doc2) (insert_values doc1)]"
    by simp
  have l: "length (db_emails ?s2) = 1"
    by (simp only: rows2) simp
  have u: "map col_updated_at (db_emails ?s2) = [''t2'']"
    by (simp only: rows2) (simp add: conflict_update_def insert_values_def doc1_def doc2_def)
  have cr: "map col_created_at (db_emails ?s2) = [''t1'']"
    by (simp only: rows2) (simp add: conflict_update_def insert_values_def doc1_def doc2_def)
  have g1: "db_query_fails db_down_env (length (calls sys_running)) (UpsertEmail doc1)"
    and g2: "db_query_fails db_down_env (length (calls ?t1)) (UpsertEmail doc2)"
    by (simp_all add: db_down_env_def)
  note refused = storeEmailInDatabase_twice [OF h1 h2 refl refl refl refl, of db_down_env]
  from refused g1 have "db_emails ?t1 = db_emails sys_running"
    by blast
  moreover from refused g2 have "db_emails ?t2 = db_emails ?t1"
    by blast
  ultimately have z: "db_emails ?t2 = db_emails sys_running"
    by simp
  from h1 h2 fk h3 ok2 c l u cr g1 g2 z show ?thesis
    by (intro conjI)
qed

text \<open>
  Claim C3, as stated, fails when the database refuses the statements: both runs are
  caught and logged, and no row with the \<open>message_id\<close> is stored.
\<close>

theorem store_twice_refused_leaves_no_record:
  "count_message_id (messageId doc1)
     (db_emails (storeEmailInDatabase db_down_env doc2
                   (storeEmailInDatabase db_down_env doc1 sys_running))) = 0 \<and>
   logs (storeEmailInDatabase db_down_env doc2 (storeEmailInDatabase db_down_env doc1 sys_running)) =
     logs sys_running @
     [Log Error [S ''Error storing email in database:'', E QueryFailed],
      Log Error [S ''Error storing email in database:'', E QueryFailed]]"
  by (simp add: storeEmailInDatabase_rows storeEmailInDatabase_logs db_down_env_def
      sys_running_fields count_message_id_def)

section \<open>The steps of the pipeline\<close>

lemma logger_fields [simp]:
  "calls (logger ls s) = calls s" "db_emails (logger ls s) = db_emails s"
  "es_index (logger ls s) = es_index s" "logs (logger ls s) = logs s @ ls"
  "accounts (logger ls s) = accounts s" "connections (logger ls s) = connections s"
  "isRunning (logger ls s) = isRunning s" "syncInterval (logger ls s) = syncInterval s"
  "imaps (logger ls s) = imaps s" "timers (logger ls s) = timers s"
  "intervals (logger ls s) = intervals s" "db_email_accounts (logger ls s) = db_email_accounts s"
  by (simp_all add: logger_def)

lemma record_call_fields [simp]:
  "calls (record_call c s) = calls s @ [c]" "db_emails (record_call c s) = db_emails s"
  "es_index (record_call c s) = es_index s" "logs (record_call c s) = logs s"
  "accounts (record_call c s) = accounts s" "connections (record_call c s) = connections s"
  "isRunning (record_call c s) = isRunning s" "syncInterval (record_call c s) = syncInterval s"
  "imaps (record_call c s) = imaps s" "timers (record_call c s) = timers s"
  "intervals (record_call c s) = intervals s"
  "db_email_accounts (record_call c s) = db_email_accounts s"
  by (simp_all add: record_call_def)



lemma vector_storeEmail_fields [simp]:
  "calls (vector_storeEmail ev email s) = calls s @ [VectorStoreEmail email]"
  "db_emails (vector_storeEmail ev email s) = db_emails s"
  "es_index (vector_storeEmail ev email s) = es_index s"
  by (simp_all add: vector_storeEmail_def Let_def)

lemma handleInterestedEmail_fields [simp]:
  "calls (handleInterestedEmail ev email s) =
     calls s @ [SlackNotification email, InterestedWebhook email]"
  "db_emails (handleInterestedEmail ev email s) = db_emails s"
  "es_index (handleInterestedEmail ev email s) = es_index s"
  by (simp_all add: handleInterestedEmail_def triggerInterestedEmailWebhook_def
      sendInterestedEmailNotification_def Let_def)

lemma storeEmailInDatabase_es_index [simp]:
  "es_index (storeEmailInDatabase ev email s) = es_index s"
  by (simp add: storeEmailInDatabase_def Let_def)


text \<open>Only the index can end the iteration once the message is categorised.\<close>

lemma forward_email_index_ok:
  assumes "\<not> es_index_fails ev (Suc (length (calls s))) email"
  shows "\<exists>t. forward_email ev email s = Inr t"
  using assms
  by (simp add: forward_email_def indexEmail_def Let_def storeEmailInDatabase_calls)

lemma forward_email_Inl:
  assumes "forward_email ev email s = Inl (err, t)"
  shows "err = SearchClientFailed \<and> es_index_fails ev (Suc (length (calls s))) email"
  using assms
  by (auto simp: forward_email_def indexEmail_def Let_def storeEmailInDatabase_calls
      split: if_splits sum.splits)


lemmas pipeline_defs =
  processEmail_def getEmailById_def categorizeEmail_def categorize_try_def
  categorizeWithOpenAI_def forward_email_def indexEmail_def storeEmailInDatabase_def
  vector_storeEmail_def default_categorization_def Let_def record_call_def logger_def

section \<open>What a batch leaves behind\<close>
















section \<open>processEmails\<close>

lemma processEmail_Inl:
  assumes "processEmail ev email s = Inl (err, t)"
  shows "err = SearchClientFailed"
proof (cases "getEmailById ev (id' email) s")
  case (Inl thrown)
  with assms show ?thesis
    by (auto simp: processEmail_def getEmailById_def Let_def split: if_splits)
next
  case (Inr found)
  obtain existing s1 where found: "found = (existing, s1)" by (cases found)
  show ?thesis
  proof (cases existing)
    case None
    with Inr found assms forward_email_Inl show ?thesis
      by (auto simp: processEmail_def split: prod.splits)
  next
    case (Some doc)
    with Inr found assms show ?thesis
      by (simp add: processEmail_def)
  qed
qed



section \<open>Duplicates and failures in a batch\<close>

text \<open>
  The existence check looks the document up by its \<open>id\<close>. A document whose \<open>id\<close> is
  not a key of the index is never taken for a duplicate, whatever its \<open>messageId\<close>.
\<close>

lemma getEmailById_fresh:
  assumes "id' email \<notin> fst ` set (es_index s)"
    and "\<not> es_get_fails ev (length (calls s)) (id' email)"
  shows "getEmailById ev (id' email) s = Inr (None, record_call (GetEmailById (id' email)) s)"
  using assms by (simp add: getEmailById_def Let_def map_of_eq_None_iff)

text \<open>
  Claim C1 says that a message identifier seen in a second fetch burst is found by the
  existence check and skipped before any downstream call. On the code it is not: the
  message \<open>mail1\<close> is parsed in two bursts, which draw the UUIDs \<open>u1\<close> and \<open>u2\<close>; both
  documents have the same \<open>messageId\<close>, but the check of the second burst asks for
  \<open>u2\<close>, finds nothing, and the second occurrence goes through categorisation, store,
  index, vector store and event; the index then holds two documents for one message.
\<close>

theorem duplicate_message_processed_again:
  "parseEmail draws1 [(1, acct1)] mail1 1 ''INBOX'' = ([], Some doc1) \<and>
   parseEmail draws2 [(1, acct1)] mail1 1 ''INBOX'' = ([], Some doc2) \<and>
   messageId doc2 = messageId doc1 \<and>
   calls (processEmails quiet_env [doc1] system0) =
     [GetEmailById ''u1'', CategorizeEmail ''Hello'' ''Hi there'' ''bob@example.com'',
      Query (UpsertEmail doc1), IndexEmail doc1, VectorStoreEmail doc1, IoEmit doc1] \<and>
   calls (processEmails quiet_env [doc2] (processEmails quiet_env [doc1] system0)) =
     calls (processEmails quiet_env [doc1] system0) @
     [GetEmailById ''u2'', CategorizeEmail ''Hello'' ''Hi there'' ''bob@example.com'',
      Query (UpsertEmail doc2), IndexEmail doc2, VectorStoreEmail doc2, IoEmit doc2] \<and>
   es_index (processEmails quiet_env [doc2] (processEmails quiet_env [doc1] system0)) =
     [(''u1'', doc1), (''u2'', doc2)]"
proof -
  have m: "messageId doc2 = messageId doc1"
    by (simp add: doc1_fields doc2_fields)
  have c1: "calls (processEmails quiet_env [doc1] system0) =
     [GetEmailById ''u1'', CategorizeEmail ''Hello'' ''Hi there'' ''bob@example.com'',
      Query (UpsertEmail doc1), IndexEmail doc1, VectorStoreEmail doc1, IoEmit doc1]"
    by (simp add: pipeline_defs quiet_env_def system0_def no_ai_def doc1_fields)
  have c2: "calls (processEmails quiet_env [doc2] (processEmails quiet_env [doc1] system0)) =
     calls (processEmails quiet_env [doc1] system0) @
     [GetEmailById ''u2'', CategorizeEmail ''Hello'' ''Hi there'' ''bob@example.com'',
      Query (UpsertEmail doc2), IndexEmail doc2, VectorStoreEmail doc2, IoEmit doc2]"
    by (simp add: pipeline_defs quiet_env_def system0_def no_ai_def doc1_fields doc2_fields)
  have e2: "es_index (processEmails quiet_env [doc2] (processEmails quiet_env [doc1] system0)) =
     [(''u1'', doc1), (''u2'', doc2)]"
    by (simp add: pipeline_defs quiet_env_def system0_def no_ai_def doc1_fields doc2_fields)
  from parse_mail1_first parse_mail1_second m c1 c2 e2 show ?thesis
    by blast
qed

text \<open>
  Claim C2 says that an error while forwarding one message is caught and logged and the
  rest of the batch is still processed. On the code the \<open>try\<close> encloses the loop: when
  the index refuses the first document of the batch \<open>[doc1, doc3]\<close> the error is logged
  and the loop is left, and no call at all is made for \<open>doc3\<close>. A failure of the store
  is caught inside \<open>storeEmailInDatabase\<close> and does not end the batch
  (\<open>store_failure_isolated\<close>).
\<close>

theorem index_failure_ends_batch:
  "calls (processEmails index_down_env [doc1, doc3] system0) =
     [GetEmailById ''u1'', CategorizeEmail ''Hello'' ''Hi there'' ''bob@example.com'',
      Query (UpsertEmail doc1), IndexEmail doc1] \<and>
   logs (processEmails index_down_env [doc1, doc3] system0) =
     [Log Error [S ''Failed to categorize email:'', E NoProviderConfigured],
      Log Error [S ''Failed to index email:'', E SearchClientFailed],
      Log Error [S ''Error processing emails:'', E SearchClientFailed]] \<and>
   map col_message_id (db_emails (processEmails index_down_env [doc1, doc3] system0)) =
     [''<m1@example.com>''] \<and>
   es_index (processEmails index_down_env [doc1, doc3] system0) = []"
proof -
  have c: "calls (processEmails index_down_env [doc1, doc3] system0) =
     [GetEmailById ''u1'', CategorizeEmail ''Hello'' ''Hi there'' ''bob@example.com'',
      Query (UpsertEmail doc1), IndexEmail doc1]"
    by (simp add: pipeline_defs index_down_env_def quiet_env_def system0_def no_ai_def
        doc1_fields doc3_fields)
  have l: "logs (processEmails index_down_env [doc1, doc3] system0) =
     [Log Error [S ''Failed to categorize email:'', E NoProviderConfigured],
      Log Error [S ''Failed to index email:'', E SearchClientFailed],
      Log Error [S ''Error processing emails:'', E SearchClientFailed]]"
    by (simp add: pipeline_defs index_down_env_def quiet_env_def system0_def no_ai_def
        doc1_fields doc3_fields)
  have d: "map col_message_id (db_emails (processEmails index_down_env [doc1, doc3] system0)) =
     [''<m1@example.com>'']"
    by (simp add: pipeline_defs index_down_env_def quiet_env_def system0_def no_ai_def
        doc1_fields doc3_fields insert_values_def)
  have e: "es_index (processEmails index_down_env [doc1, doc3] system0) = []"
    by (simp add: pipeline_defs index_down_env_def quiet_env_def system0_def no_ai_def
        doc1_fields doc3_fields)
  from c l d e show ?thesis by blast
qed

lemma store_failure_isolated:
  "calls (processEmails db_down_env [doc1, doc3] system0) =
     [GetEmailById ''u1'', CategorizeEmail ''Hello'' ''Hi there'' ''bob@example.com'',
      Query (UpsertEmail doc1), IndexEmail doc1, VectorStoreEmail doc1, IoEmit doc1,
      GetEmailById ''u3'', CategorizeEmail ''Third'' ''Hi there'' ''bob@example.com'',
      Query (UpsertEmail doc3), IndexEmail doc3, VectorStoreEmail doc3, IoEmit doc3]"
  by (simp add: pipeline_defs db_down_env_def quiet_env_def system0_def no_ai_def
        doc1_fields doc3_fields)

section \<open>startSync\<close>

lemma startIDLEConnection_imaps:
  "\<exists>new. imaps (startIDLEConnection ev a account s) = imaps s @ new \<and>
         (\<forall>obj\<in>set new. imap_accountId obj = a \<and> imap_account obj = account \<and>
                          imap_ops obj = [Connect])"
  by (simp add: startIDLEConnection_def)

lemma startIDLEConnection_fields [simp]:
  "connections (startIDLEConnection ev a account s) = connections s"
  "timers (startIDLEConnection ev a account s) = timers s"
  "accounts (startIDLEConnection ev a account s) = accounts s"
  "isRunning (startIDLEConnection ev a account s) = isRunning s"
  "syncInterval (startIDLEConnection ev a account s) = syncInterval s"
  "intervals (startIDLEConnection ev a account s) = intervals s"
  "calls (startIDLEConnection ev a account s) = calls s"
  "db_emails (startIDLEConnection ev a account s) = db_emails s"
  "es_index (startIDLEConnection ev a account s) = es_index s"
  "db_email_accounts (startIDLEConnection ev a account s) = db_email_accounts s"
  by (simp_all add: startIDLEConnection_def)

lemma start_connections_fields [simp]:
  "connections (start_connections ev accs s) = connections s"
  "timers (start_connections ev accs s) = timers s"
  "accounts (start_connections ev accs s) = accounts s"
  "isRunning (start_connections ev accs s) = isRunning s"
  "syncInterval (start_connections ev accs s) = syncInterval s"
  "intervals (start_connections ev accs s) = intervals s"
  "calls (start_connections ev accs s) = calls s"
  "db_email_accounts (start_connections ev accs s) = db_email_accounts s"
  by (induction ev accs s rule: start_connections.induct, simp_all)

lemma start_connections_imaps:
  "\<exists>new. imaps (start_connections ev accs s) = imaps s @ new \<and>
         (\<forall>obj\<in>set new. imap_accountId obj \<in> fst ` set accs \<and> imap_ops obj = [Connect])"
proof (induction ev accs s rule: start_connections.induct)
  case (1 ev s)
  then show ?case by simp
next
  case (2 ev accId account rest s)
  let ?s1 = "if isActive account then startIDLEConnection ev accId account s else s"
  obtain new1 where n1: "imaps ?s1 = imaps s @ new1"
    "\<forall>obj\<in>set new1. imap_accountId obj = accId \<and> imap_ops obj = [Connect]"
    using startIDLEConnection_imaps [of ev accId account s] by (cases "isActive account") auto
  from "2.IH" obtain new2 where n2: "imaps (start_connections ev rest ?s1) = imaps ?s1 @ new2"
    "\<forall>obj\<in>set new2. imap_accountId obj \<in> fst ` set rest \<and> imap_ops obj = [Connect]"
    by blast
  have "imaps (start_connections ev ((accId, account) # rest) s) = imaps s @ (new1 @ new2)"
    using n1(1) n2(1) by simp
  moreover have "\<forall>obj\<in>set (new1 @ new2).
      imap_accountId obj \<in> fst ` set ((accId, account) # rest) \<and> imap_ops obj = [Connect]"
    using n1(2) n2(2) by auto
  ultimately show ?case by blast
qed

lemma set_accounts_keys:
  "fst ` set (set_accounts rows m) = fst ` set m \<union> col_id ` set rows"
proof (induction rows arbitrary: m)
  case Nil
  then show ?case by simp
next
  case (Cons r rows)
  have "fst ` set (AList.update (col_id r) (account_of_row r) m) = insert (col_id r) (fst ` set m)"
    by (simp add: dom_map_of_conv_image_fst [symmetric] update_conv' del: dom_map_of_conv_image_fst)
  with Cons show ?case by auto
qed

lemma loaded_accounts_active:
  "a \<in> fst ` set (set_accounts (select_active_accounts rows) []) \<Longrightarrow> active_in_table rows a"
  by (auto simp: set_accounts_keys select_active_accounts_def active_in_table_def)

lemma loadAccounts_Inr:
  assumes "loadAccounts ev s = Inr s1"
  shows "accounts s1 = set_accounts (select_active_accounts (db_email_accounts s)) []"
    and "imaps s1 = imaps s" and "connections s1 = connections s" and "timers s1 = timers s"
    and "db_email_accounts s1 = db_email_accounts s"
  using assms by (auto simp: loadAccounts_def Let_def logger_def record_call_def split: if_splits)

lemma startSync_Inr:
  assumes "startSync ev s = Inr s'"
  shows "\<exists>s1. loadAccounts ev (logger [Log Info [S ''Starting email synchronization...'']] s) = Inr s1 \<and>
           s' = logger [Log Info [S ''Email synchronization started successfully'']]
                  ((startPeriodicSync ev (start_connections ev (accounts s1) s1))\<lparr>isRunning := True\<rparr>)"
  using assms by (auto simp: startSync_def split: sum.splits)

lemma startSync_imaps:
  assumes "startSync ev s = Inr s'"
  shows "connections s' = connections s \<and> timers s' = timers s \<and>
         db_email_accounts s' = db_email_accounts s \<and> isRunning s' \<and>
         (\<exists>new. imaps s' = imaps s @ new \<and>
            (\<forall>obj\<in>set new. active_in_table (db_email_accounts s) (imap_accountId obj) \<and>
                             imap_ops obj = [Connect]))"
proof -
  let ?s0 = "logger [Log Info [S ''Starting email synchronization...'']] s"
  from startSync_Inr [OF assms] obtain s1 where
    l: "loadAccounts ev ?s0 = Inr s1" and
    s': "s' = logger [Log Info [S ''Email synchronization started successfully'']]
                  ((startPeriodicSync ev (start_connections ev (accounts s1) s1))\<lparr>isRunning := True\<rparr>)"
    by blast
  note la = loadAccounts_Inr [OF l]
  obtain new where n: "imaps (start_connections ev (accounts s1) s1) = imaps s1 @ new"
    "\<forall>obj\<in>set new. imap_accountId obj \<in> fst ` set (accounts s1) \<and> imap_ops obj = [Connect]"
    using start_connections_imaps by blast
  have act: "\<forall>obj\<in>set new. active_in_table (db_email_accounts s) (imap_accountId obj) \<and>
                             imap_ops obj = [Connect]"
    using n(2) la(1) loaded_accounts_active by (simp add: logger_def)
  have "imaps s' = imaps s @ new"
    using s' n(1) la(2) by (simp add: startPeriodicSync_def logger_def)
  moreover have "connections s' = connections s" "timers s' = timers s"
    "db_email_accounts s' = db_email_accounts s" "isRunning s'"
    using s' la by (simp_all add: startPeriodicSync_def logger_def)
  ultimately show ?thesis using act by blast
qed

section \<open>Events keep the connections within the active accounts\<close>

lemma request_op_length [simp]: "length (request_op h ops objs) = length objs"
  by (simp add: request_op_def)

lemma request_op_ids:
  "imap_accountId ` set (request_op h ops objs) = imap_accountId ` set objs"
proof (cases "h < length objs")
  case True
  have "map imap_accountId (request_op h ops objs) = map imap_accountId objs"
    using True by (simp add: request_op_def map_update list_update_same_conv)
  then show ?thesis by (metis image_set)
next
  case False
  then show ?thesis by (simp add: request_op_def)
qed

lemma unregister_ids:
  assumes "h < length (imaps s)" and "\<And>ob. imap_accountId (f ob) = imap_accountId ob"
  shows "imap_accountId ` set (imaps (unregister h f s)) = imap_accountId ` set (imaps s)"
proof -
  have "map imap_accountId (imaps (unregister h f s)) = map imap_accountId (imaps s)"
    using assms by (simp add: unregister_def map_update list_update_same_conv)
  then show ?thesis by (metis image_set)
qed

lemma unregister_fields [simp]:
  "connections (unregister h f s) = connections s" "timers (unregister h f s) = timers s"
  "length (imaps (unregister h f s)) = length (imaps s)"
  "isRunning (unregister h f s) = isRunning s" "accounts (unregister h f s) = accounts s"
  "syncInterval (unregister h f s) = syncInterval s" "intervals (unregister h f s) = intervals s"
  "calls (unregister h f s) = calls s" "logs (unregister h f s) = logs s"
  by (simp_all add: unregister_def)

lemma only_active_ids:
  "only_active rows s =
     ((\<forall>a\<in>imap_accountId ` set (imaps s). active_in_table rows a) \<and>
      (\<forall>t\<in>set (timers s). case snd t of Reconnect a account \<Rightarrow> active_in_table rows a) \<and>
      (\<forall>c\<in>set (connections s). active_in_table rows (fst c) \<and> snd c < length (imaps s)))"
  by (auto simp: only_active_def)

lemma syncAllAccounts_fields [simp]:
  "imaps (syncAllAccounts accs s) = imaps s" "timers (syncAllAccounts accs s) = timers s"
  "connections (syncAllAccounts accs s) = connections s"
  "calls (syncAllAccounts accs s) = calls s" "isRunning (syncAllAccounts accs s) = isRunning s"
  by (induction accs s rule: syncAllAccounts.induct, simp_all)

lemma set_alist_update: "set (AList.update k v al) \<subseteq> insert (k, v) (set al)"
  by (induction al) auto

lemma set_alist_delete: "set (AList.delete k al) \<subseteq> set al"
  by (induction al) auto

lemma deliver_only_active:
  assumes inv: "only_active rows s" and d: "deliver ev e s = Some s'"
  shows "only_active rows s'"
proof (cases e)
  case (ImapReady h)
  show ?thesis
  proof (cases "h < length (imaps s) \<and> once_ready (imaps s ! h)")
    case False
    with d ImapReady inv show ?thesis by auto
  next
    case True
    let ?obj = "imaps s ! h"
    let ?s1 = "logger [Log Info [S ''IMAP connection ready for account: '',
                                 S (name (imap_account ?obj))]]
                 (unregister h (\<lambda>ob. ob\<lparr>once_ready := False\<rparr>) s)"
    have s': "s' = ?s1\<lparr>connections := AList.update (imap_accountId ?obj) h (connections s),
                     imaps := request_op h (map OpenBox (folders (imap_account ?obj))) (imaps ?s1)\<rparr>"
      using d ImapReady True by (simp add: Let_def)
    have ids: "imap_accountId ` set (imaps s') = imap_accountId ` set (imaps s)"
      using True by (simp add: s' request_op_ids unregister_ids)
    have len: "length (imaps s') = length (imaps s)"
      by (simp add: s')
    have act: "active_in_table rows (imap_accountId ?obj)"
      using inv True by (simp add: only_active_def)
    have conns: "set (connections s') \<subseteq> insert (imap_accountId ?obj, h) (set (connections s))"
      by (simp add: s' set_alist_update)
    have tm: "timers s' = timers s" by (simp add: s')
    show ?thesis
      unfolding only_active_ids ids len tm
      using inv conns act True by (auto simp: only_active_ids)
  qed
next
  case (ImapError h)
  show ?thesis
  proof (cases "h < length (imaps s)")
    case False
    with d ImapError inv show ?thesis by auto
  next
    case True
    let ?obj = "imaps s ! h"
    from d ImapError True have oe: "once_error ?obj"
      by (auto split: if_splits)
    let ?s1 = "logger [Log Error [S ''IMAP error for account '',
                                  S (name (imap_account ?obj)), S '':'', E ImapFailed]]
                 (unregister h (\<lambda>ob. ob\<lparr>once_error := False\<rparr>) s)"
    have s': "s' = ?s1\<lparr>connections := AList.delete (imap_accountId ?obj) (connections s),
                     timers := timers s @ [(30000, Reconnect (imap_accountId ?obj) (imap_account ?obj))]\<rparr>"
      using d ImapError True oe by (simp add: Let_def)
    have ids: "imap_accountId ` set (imaps s') = imap_accountId ` set (imaps s)"
      using True by (simp add: s' unregister_ids)
    have len: "length (imaps s') = length (imaps s)"
      by (simp add: s')
    have act: "active_in_table rows (imap_accountId ?obj)"
      using inv True by (simp add: only_active_def)
    have conns: "set (connections s') \<subseteq> set (connections s)"
      by (simp add: s' set_alist_delete)
    have tm: "timers s' = timers s @ [(30000, Reconnect (imap_accountId ?obj) (imap_account ?obj))]"
      by (simp add: s')
    show ?thesis
      unfolding only_active_ids ids len tm
      using inv conns act by (auto simp: only_active_ids)
  qed
next
  case (ImapEnd h)
  show ?thesis
  proof (cases "h < length (imaps s) \<and> once_end (imaps s ! h)")
    case False
    with d ImapEnd inv show ?thesis by auto
  next
    case True
    let ?obj = "imaps s ! h"
    let ?s1 = "logger [Log Info [S ''IMAP connection ended for account: '',
                                 S (name (imap_account ?obj))]]
                 (unregister h (\<lambda>ob. ob\<lparr>once_end := False\<rparr>) s)"
    have s': "s' = ?s1\<lparr>connections := AList.delete (imap_accountId ?obj) (connections s)\<rparr>"
      using d ImapEnd True by (simp add: Let_def)
    have ids: "imap_accountId ` set (imaps s') = imap_accountId ` set (imaps s)"
      using True by (simp add: s' unregister_ids)
    have len: "length (imaps s') = length (imaps s)"
      by (simp add: s')
    have conns: "set (connections s') \<subseteq> set (connections s)"
      by (simp add: s' set_alist_delete)
    have tm: "timers s' = timers s" by (simp add: s')
    show ?thesis
      unfolding only_active_ids ids len tm
      using inv conns by (auto simp: only_active_ids)
  qed
next
  case (TimerFired i)
  show ?thesis
  proof (cases "i < length (timers s)")
    case False
    with d TimerFired inv show ?thesis by auto
  next
    case True
    obtain dl a account where t: "timers s ! i = (dl, Reconnect a account)"
      by (metis timer_callback.exhaust surj_pair)
    let ?s1 = "s\<lparr>timers := take i (timers s) @ drop (Suc i) (timers s)\<rparr>"
    have s': "s' = (if isRunning s then startIDLEConnection ev a account ?s1 else ?s1)"
      using d TimerFired True t by (simp add: Let_def)
    have act: "active_in_table rows a"
      using inv True t nth_mem [OF True] by (fastforce simp: only_active_def)
    have sub: "set (timers ?s1) \<subseteq> set (timers s)"
      using set_take_subset [of i "timers s"] set_drop_subset [of "Suc i" "timers s"] by auto
    have inv1: "only_active rows ?s1"
      using inv sub by (auto simp: only_active_def)
    show ?thesis
    proof (cases "isRunning s")
      case False
      with s' inv1 show ?thesis by simp
    next
      case True
      obtain new where n: "imaps (startIDLEConnection ev a account ?s1) = imaps ?s1 @ new"
        "\<forall>obj\<in>set new. imap_accountId obj = a \<and> imap_account obj = account \<and>
                          imap_ops obj = [Connect]"
        using startIDLEConnection_imaps by blast
      with True s' inv1 act show ?thesis
        by (auto simp: only_active_def)
    qed
  qed
next
  case (IntervalFired h)
  with d inv show ?thesis
    by (fastforce simp: only_active_def split: if_splits)
qed

lemma run_only_active:
  "only_active rows s \<Longrightarrow> run ev es s = Some s' \<Longrightarrow> only_active rows s'"
proof (induction es arbitrary: s)
  case Nil
  then show ?case by simp
next
  case (Cons e es)
  then show ?case
    by (auto split: option.splits dest: deliver_only_active)
qed

lemma only_active_fresh:
  "imaps s = [] \<Longrightarrow> timers s = [] \<Longrightarrow> connections s = [] \<Longrightarrow> only_active rows s"
  by (simp add: only_active_def)

text \<open>
  Claim C7. \<open>startSync\<close> starts a connection (an \<open>Imap\<close> object on which \<open>connect\<close>
  is called) only for accounts that a row of \<open>email_accounts\<close> marks active, and adds
  no entry to \<open>connections\<close> itself. An entry is added when a connection becomes
  ready; when the service holds no connection of an inactive account before
  \<open>startSync\<close> (as when it has just been constructed, \<open>only_active_fresh\<close>), then
  after \<open>startSync\<close> and any events that follow, every entry of \<open>connections\<close> belongs
  to an active account.
\<close>

theorem startSync_only_active_accounts:
  assumes "startSync ev s = Inr s'"
  shows "connections s' = connections s \<and>
         (\<exists>new. imaps s' = imaps s @ new \<and>
            (\<forall>obj\<in>set new. active_in_table (db_email_accounts s) (imap_accountId obj) \<and>
                             imap_ops obj = [Connect])) \<and>
         (only_active (db_email_accounts s) s \<longrightarrow>
            (\<forall>es s''. run ev es s' = Some s'' \<longrightarrow>
               (\<forall>c\<in>set (connections s''). active_in_table (db_email_accounts s) (fst c))))"
proof -
  note st = startSync_imaps [OF assms]
  from st obtain new where n: "imaps s' = imaps s @ new"
    "\<forall>obj\<in>set new. active_in_table (db_email_accounts s) (imap_accountId obj) \<and>
                     imap_ops obj = [Connect]"
    by blast
  have later: "\<forall>c\<in>set (connections s''). active_in_table (db_email_accounts s) (fst c)"
    if inv: "only_active (db_email_accounts s) s" and r: "run ev es s' = Some s''" for es s''
  proof -
    have "only_active (db_email_accounts s) s'"
      using inv st n by (auto simp: only_active_def)
    from run_only_active [OF this r] show ?thesis
      by (simp add: only_active_def)
  qed
  from st n later show ?thesis by blast
qed

theorem startSync_only_active_accounts_witness:
  "startSync quiet_env system_ab = Inr sys_started \<and>
   only_active (db_email_accounts system_ab) system_ab \<and>
   run quiet_env [ImapReady 0] sys_started = Some sys_running \<and>
   \<not> active_in_table (db_email_accounts system_ab) 2 \<and>
   connections sys_started = [] \<and>
   map imap_accountId (imaps sys_started) = [1] \<and>
   connections sys_running = [(1, 0)] \<and>
   active_in_table (db_email_accounts system_ab) (fst (1, 0 :: nat))"
proof -
  have inv: "only_active (db_email_accounts system_ab) system_ab"
    by (simp add: only_active_def system_ab_def system0_def)
  have r: "run quiet_env [ImapReady 0] sys_started = Some sys_running"
    by (simp only: run.simps ready_sys_started option.case)
  have na: "\<not> active_in_table (db_email_accounts system_ab) 2"
    by (simp add: active_in_table_def system_ab_def system0_def row_active_def row_inactive_def)
  have c: "connections sys_running = [(1, 0)]"
    by (simp add: sys_running_def)
  note inst = startSync_only_active_accounts [OF startSync_system_ab]
  from inst have c0: "connections sys_started = connections system_ab"
    by blast
  then have c0': "connections sys_started = []"
    by (simp add: system_ab_def system0_def)
  from inst inv r
  have "\<forall>c\<in>set (connections sys_running). active_in_table (db_email_accounts system_ab) (fst c)"
    by blast
  with c have a: "active_in_table (db_email_accounts system_ab) (fst (1, 0 :: nat))"
    by simp
  have i: "map imap_accountId (imaps sys_started) = [1]"
    by (simp add: sys_started_def)
  from startSync_system_ab inv r na c0' i c a show ?thesis
    by blast
qed

section \<open>stopSync\<close>

lemma close_connections_fields [simp]:
  "isRunning (close_connections ev cs s) = isRunning s"
  "syncInterval (close_connections ev cs s) = syncInterval s"
  "intervals (close_connections ev cs s) = intervals s"
  "connections (close_connections ev cs s) = connections s"
  "timers (close_connections ev cs s) = timers s"
  "accounts (close_connections ev cs s) = accounts s"
  "calls (close_connections ev cs s) = calls s"
  "db_emails (close_connections ev cs s) = db_emails s"
  "es_index (close_connections ev cs s) = es_index s"
  "length (imaps (close_connections ev cs s)) = length (imaps s)"
  by (induction ev cs s rule: close_connections.induct, simp_all)

lemma request_op_ops:
  "k < length objs \<Longrightarrow>
   imap_ops (request_op h ops objs ! k) =
     (if k = h then imap_ops (objs ! k) @ ops else imap_ops (objs ! k))"
  by (simp add: request_op_def nth_list_update)

lemma close_connections_keeps_ops:
  "k < length (imaps s) \<Longrightarrow>
   set (imap_ops (imaps s ! k)) \<subseteq> set (imap_ops (imaps (close_connections ev cs s) ! k))"
proof (induction ev cs s rule: close_connections.induct)
  case (1 ev s)
  then show ?case by simp
next
  case (2 ev accId h rest s)
  let ?s1 = "logger
          (if imap_end_throws ev h
           then [Log Error [S ''Error closing connection for account '', N accId, S '':'',
                            E ImapFailed]]
           else [Log Info [S ''Closed IMAP connection for account '', N accId]])
          (s\<lparr>imaps := request_op h [End] (imaps s)\<rparr>)"
  have "set (imap_ops (imaps s ! k)) \<subseteq> set (imap_ops (imaps ?s1 ! k))"
    using "2.prems" by (auto simp: request_op_ops)
  moreover have "set (imap_ops (imaps ?s1 ! k)) \<subseteq>
                 set (imap_ops (imaps (close_connections ev rest ?s1) ! k))"
    using "2.IH" "2.prems" by simp
  ultimately show ?case by auto
qed

lemma close_connections_ends:
  "(a, h) \<in> set cs \<Longrightarrow> h < length (imaps s) \<Longrightarrow>
   End \<in> set (imap_ops (imaps (close_connections ev cs s) ! h))"
proof (induction ev cs s rule: close_connections.induct)
  case (1 ev s)
  then show ?case by simp
next
  case (2 ev accId h' rest s)
  let ?s1 = "logger
          (if imap_end_throws ev h'
           then [Log Error [S ''Error closing connection for account '', N accId, S '':'',
                            E ImapFailed]]
           else [Log Info [S ''Closed IMAP connection for account '', N accId]])
          (s\<lparr>imaps := request_op h' [End] (imaps s)\<rparr>)"
  have len: "h < length (imaps ?s1)" using "2.prems" by simp
  show ?case
  proof (cases "h = h'")
    case True
    have "End \<in> set (imap_ops (imaps ?s1 ! h))"
      using "2.prems" True by (simp add: request_op_ops)
    with close_connections_keeps_ops [OF len, of ev rest] show ?thesis
      by auto
  next
    case False
    with "2.prems" have "(a, h) \<in> set rest" by auto
    from "2.IH" [OF this len] show ?thesis by simp
  qed
qed

lemma stopSync_unfold:
  "stopSync ev s =
     logger [Log Info [S ''Email synchronization stopped'']]
       ((close_connections ev (connections s)
           (case syncInterval s of
              None \<Rightarrow> (logger [Log Info [S ''Stopping email synchronization...'']] s)
                        \<lparr>isRunning := False\<rparr>
            | Some h \<Rightarrow> (logger [Log Info [S ''Stopping email synchronization...'']] s)
                        \<lparr>isRunning := False, intervals := clearInterval h (intervals s),
                         syncInterval := None\<rparr>))\<lparr>connections := []\<rparr>)"
  by (simp add: stopSync_def Let_def logger_def split: option.splits)

lemma stopSync_fields:
  "isRunning (stopSync ev s) = False" "syncInterval (stopSync ev s) = None"
  "connections (stopSync ev s) = []" "calls (stopSync ev s) = calls s"
  "db_emails (stopSync ev s) = db_emails s" "es_index (stopSync ev s) = es_index s"
  "timers (stopSync ev s) = timers s" "accounts (stopSync ev s) = accounts s"
  "length (imaps (stopSync ev s)) = length (imaps s)"
  "intervals (stopSync ev s) =
     (case syncInterval s of None \<Rightarrow> intervals s | Some h \<Rightarrow> clearInterval h (intervals s))"
  by (simp_all add: stopSync_unfold split: option.splits)

lemma stopSync_ends:
  assumes "(a, h) \<in> set (connections s)" and "h < length (imaps s)"
  shows "End \<in> set (imap_ops (imaps (stopSync ev s) ! h))"
proof -
  have "End \<in> set (imap_ops (imaps (close_connections ev (connections s) t) ! h))"
    if "imaps t = imaps s" for t
    using close_connections_ends [OF assms(1), of t ev] assms(2) that by simp
  then show ?thesis
    by (simp add: stopSync_unfold split: option.splits)
qed

section \<open>Connection failures\<close>

lemma alist_delete_other: "a \<noteq> k \<Longrightarrow> map_of (AList.delete k al) a = map_of al a"
  by (simp add: delete_conv')

text \<open>
  Claim C8, as amended. Take a connection object of an account. Its listeners are
  registered with \<open>once\<close>, so each handles the first event of its kind. On the first
  \<open>error\<close> event of the object the entry of the account is removed from
  \<open>connections\<close> and one reconnection is scheduled with a fixed delay of 30000 ms. On
  its first \<open>end\<close> event the entry is removed and nothing is scheduled. Either handler
  changes nothing else: the accounts, \<open>isRunning\<close>, the periodic timer, the entries of
  other accounts, the other connection objects and the stores stay as they are, no
  downstream call is made, and the process goes on. When a scheduled reconnection
  fires, it is removed from the pending ones and \<open>startIDLEConnection\<close> runs if and only
  if \<open>isRunning\<close> is true at that moment; nothing else changes. Nothing is said of a
  further \<open>error\<close> event of the same object, whose listener is gone.
\<close>

theorem connection_error_reconnects:
  assumes "h < length (imaps s)"
    and "obj = imaps s ! h"
  shows "(once_error obj \<longrightarrow>
            (\<exists>s1. deliver ev (ImapError h) s = Some s1 \<and>
               connections s1 = AList.delete (imap_accountId obj) (connections s) \<and>
               timers s1 = timers s @ [(30000, Reconnect (imap_accountId obj) (imap_account obj))] \<and>
               (\<forall>a. a \<noteq> imap_accountId obj \<longrightarrow>
                    map_of (connections s1) a = map_of (connections s) a) \<and>
               imaps s1 = (imaps s)[h := obj\<lparr>once_error := False\<rparr>] \<and>
               logs s1 = logs s @ [Log Error [S ''IMAP error for account '',
                                              S (name (imap_account obj)), S '':'', E ImapFailed]] \<and>
               isRunning s1 = isRunning s \<and> accounts s1 = accounts s \<and>
               syncInterval s1 = syncInterval s \<and> intervals s1 = intervals s \<and>
               db_email_accounts s1 = db_email_accounts s \<and> db_emails s1 = db_emails s \<and>
               es_index s1 = es_index s \<and> calls s1 = calls s)) \<and>
         (once_end obj \<longrightarrow>
            (\<exists>s1. deliver ev (ImapEnd h) s = Some s1 \<and>
               connections s1 = AList.delete (imap_accountId obj) (connections s) \<and>
               timers s1 = timers s \<and>
               (\<forall>a. a \<noteq> imap_accountId obj \<longrightarrow>
                    map_of (connections s1) a = map_of (connections s) a) \<and>
               imaps s1 = (imaps s)[h := obj\<lparr>once_end := False\<rparr>] \<and>
               logs s1 = logs s @ [Log Info [S ''IMAP connection ended for account: '',
                                             S (name (imap_account obj))]] \<and>
               isRunning s1 = isRunning s \<and> accounts s1 = accounts s \<and>
               syncInterval s1 = syncInterval s \<and> intervals s1 = intervals s \<and>
               db_email_accounts s1 = db_email_accounts s \<and> db_emails s1 = db_emails s \<and>
               es_index s1 = es_index s \<and> calls s1 = calls s)) \<and>
         (\<forall>i d a account. i < length (timers s) \<and> timers s ! i = (d, Reconnect a account) \<longrightarrow>
            (\<exists>s1. deliver ev (TimerFired i) s = Some s1 \<and>
               s1 = (if isRunning s
                     then startIDLEConnection ev a account
                            (s\<lparr>timers := take i (timers s) @ drop (Suc i) (timers s)\<rparr>)
                     else s\<lparr>timers := take i (timers s) @ drop (Suc i) (timers s)\<rparr>) \<and>
               timers s1 = take i (timers s) @ drop (Suc i) (timers s) \<and>
               imaps s1 =
                 (if isRunning s \<and> \<not> imap_start_throws ev (length (imaps s)) account
                  then imaps s @ [\<lparr>imap_accountId = a, imap_account = account,
                                    once_ready = True, once_error = True, once_end = True,
                                    imap_ops = [Connect]\<rparr>]
                  else imaps s) \<and>
               connections s1 = connections s \<and>
               isRunning s1 = isRunning s \<and> accounts s1 = accounts s \<and>
               syncInterval s1 = syncInterval s \<and> intervals s1 = intervals s \<and>
               db_email_accounts s1 = db_email_accounts s \<and> db_emails s1 = db_emails s \<and>
               es_index s1 = es_index s \<and> calls s1 = calls s))"
proof -
  have err: "\<exists>s1. deliver ev (ImapError h) s = Some s1 \<and>
               connections s1 = AList.delete (imap_accountId obj) (connections s) \<and>
               timers s1 = timers s @ [(30000, Reconnect (imap_accountId obj) (imap_account obj))] \<and>
               (\<forall>a. a \<noteq> imap_accountId obj \<longrightarrow>
                    map_of (connections s1) a = map_of (connections s) a) \<and>
               imaps s1 = (imaps s)[h := obj\<lparr>once_error := False\<rparr>] \<and>
               logs s1 = logs s @ [Log Error [S ''IMAP error for account '',
                                              S (name (imap_account obj)), S '':'', E ImapFailed]] \<and>
               isRunning s1 = isRunning s \<and> accounts s1 = accounts s \<and>
               syncInterval s1 = syncInterval s \<and> intervals s1 = intervals s \<and>
               db_email_accounts s1 = db_email_accounts s \<and> db_emails s1 = db_emails s \<and>
               es_index s1 = es_index s \<and> calls s1 = calls s"
    if "once_error obj"
    using that assms by (simp add: Let_def alist_delete_other unregister_def logger_def)
  have ended: "\<exists>s1. deliver ev (ImapEnd h) s = Some s1 \<and>
               connections s1 = AList.delete (imap_accountId obj) (connections s) \<and>
               timers s1 = timers s \<and>
               (\<forall>a. a \<noteq> imap_accountId obj \<longrightarrow>
                    map_of (connections s1) a = map_of (connections s) a) \<and>
               imaps s1 = (imaps s)[h := obj\<lparr>once_end := False\<rparr>] \<and>
               logs s1 = logs s @ [Log Info [S ''IMAP connection ended for account: '',
                                             S (name (imap_account obj))]] \<and>
               isRunning s1 = isRunning s \<and> accounts s1 = accounts s \<and>
               syncInterval s1 = syncInterval s \<and> intervals s1 = intervals s \<and>
               db_email_accounts s1 = db_email_accounts s \<and> db_emails s1 = db_emails s \<and>
               es_index s1 = es_index s \<and> calls s1 = calls s"
    if "once_end obj"
    using that assms by (simp add: Let_def alist_delete_other unregister_def logger_def)
  have fired: "\<exists>s1. deliver ev (TimerFired i) s = Some s1 \<and>
               s1 = (if isRunning s
                     then startIDLEConnection ev a account
                            (s\<lparr>timers := take i (timers s) @ drop (Suc i) (timers s)\<rparr>)
                     else s\<lparr>timers := take i (timers s) @ drop (Suc i) (timers s)\<rparr>) \<and>
               timers s1 = take i (timers s) @ drop (Suc i) (timers s) \<and>
               imaps s1 =
                 (if isRunning s \<and> \<not> imap_start_throws ev (length (imaps s)) account
                  then imaps s @ [\<lparr>imap_accountId = a, imap_account = account,
                                    once_ready = True, once_error = True, once_end = True,
                                    imap_ops = [Connect]\<rparr>]
                  else imaps s) \<and>
               connections s1 = connections s \<and>
               isRunning s1 = isRunning s \<and> accounts s1 = accounts s \<and>
               syncInterval s1 = syncInterval s \<and> intervals s1 = intervals s \<and>
               db_email_accounts s1 = db_email_accounts s \<and> db_emails s1 = db_emails s \<and>
               es_index s1 = es_index s \<and> calls s1 = calls s"
    if "i < length (timers s) \<and> timers s ! i = (d, Reconnect a account)" for i d a account
    using that by (simp add: Let_def startIDLEConnection_def logger_def)
  from err ended fired show ?thesis by blast
qed

lemmas stop_defs =
  stopSync_def clearInterval_def request_op_def logger_def Let_def startIDLEConnection_def

lemmas running_defs = sys_failed_def sys_running_def sys_started_def quiet_env_def

theorem connection_error_reconnects_witness:
  "0 < length (imaps sys_running) \<and>
   once_error (imaps sys_running ! 0) \<and>
   once_end (imaps sys_running ! 0) \<and>
   deliver quiet_env (ImapError 0) sys_running = Some sys_failed \<and>
   connections sys_failed = [] \<and>
   timers sys_failed = [(30000, Reconnect 1 acct1)] \<and>
   accounts sys_failed = accounts sys_running \<and>
   syncInterval sys_failed = syncInterval sys_running \<and>
   calls sys_failed = calls sys_running \<and>
   (\<exists>s1. deliver quiet_env (ImapEnd 0) sys_running = Some s1 \<and>
         connections s1 = [] \<and> timers s1 = [] \<and> accounts s1 = [(1, acct1)] \<and>
         syncInterval s1 = Some 0 \<and> intervals s1 = [(300000, True)] \<and>
         calls s1 = [Query SelectActiveAccounts] \<and> isRunning s1) \<and>
   isRunning sys_failed \<and>
   timers sys_failed ! 0 = (30000, Reconnect 1 acct1) \<and>
   (\<exists>s1. deliver quiet_env (TimerFired 0) sys_failed = Some s1 \<and> timers s1 = [] \<and>
         map imap_ops (imaps s1) = [[Connect, OpenBox ''INBOX''], [Connect]]) \<and>
   isRunning (stopSync quiet_env sys_failed) = False \<and>
   timers (stopSync quiet_env sys_failed) ! 0 = (30000, Reconnect 1 acct1) \<and>
   (\<exists>s1. deliver quiet_env (TimerFired 0) (stopSync quiet_env sys_failed) = Some s1 \<and>
         timers s1 = [] \<and> imaps s1 = imaps (stopSync quiet_env sys_failed))"
proof -
  have h: "0 < length (imaps sys_running)" and oe: "once_error (imaps sys_running ! 0)"
    and on: "once_end (imaps sys_running ! 0)"
    and obj: "imap_accountId (imaps sys_running ! 0) = 1"
    and cr: "connections sys_running = [(1, 0)]" "timers sys_running = []"
      "accounts sys_running = [(1, acct1)]" "syncInterval sys_running = Some 0"
      "intervals sys_running = [(300000, True)]" "calls sys_running = [Query SelectActiveAccounts]"
      "isRunning sys_running"
    by (simp_all add: sys_running_def sys_started_def)
  note inst = connection_error_reconnects [OF h refl, of quiet_env]
  from inst oe error_sys_running
  have t: "timers sys_failed = timers sys_running @
             [(30000, Reconnect (imap_accountId (imaps sys_running ! 0))
                        (imap_account (imaps sys_running ! 0)))]"
    and k: "accounts sys_failed = accounts sys_running"
      "syncInterval sys_failed = syncInterval sys_running" "calls sys_failed = calls sys_running"
    by auto
  from t have t': "timers sys_failed = [(30000, Reconnect 1 acct1)]"
    by (simp add: sys_running_def sys_started_def)
  from inst on obtain s1 where "deliver quiet_env (ImapEnd 0) sys_running = Some s1"
    "connections s1 = AList.delete (imap_accountId (imaps sys_running ! 0)) (connections sys_running)"
    "timers s1 = timers sys_running" "accounts s1 = accounts sys_running"
    "syncInterval s1 = syncInterval sys_running" "intervals s1 = intervals sys_running"
    "calls s1 = calls sys_running" "isRunning s1 = isRunning sys_running"
    by blast
  then have e: "\<exists>s1. deliver quiet_env (ImapEnd 0) sys_running = Some s1 \<and>
         connections s1 = [] \<and> timers s1 = [] \<and> accounts s1 = [(1, acct1)] \<and>
         syncInterval s1 = Some 0 \<and> intervals s1 = [(300000, True)] \<and>
         calls s1 = [Query SelectActiveAccounts] \<and> isRunning s1"
    by (simp add: obj cr)
  have c: "connections sys_failed = []" and r: "isRunning sys_failed"
    and hf: "0 < length (imaps sys_failed)"
    and im: "map imap_ops (imaps sys_failed) = [[Connect, OpenBox ''INBOX'']]"
    by (simp_all add: running_defs)
  have nt: "\<not> imap_start_throws quiet_env (length (imaps sys_failed)) acct1"
    by (simp add: quiet_env_def)
  from t' have t0: "0 < length (timers sys_failed) \<and> timers sys_failed ! 0 = (30000, Reconnect 1 acct1)"
    by simp
  from connection_error_reconnects [OF hf refl, of quiet_env] t0
  obtain s2 where d2: "deliver quiet_env (TimerFired 0) sys_failed = Some s2"
    and tm2: "timers s2 = take 0 (timers sys_failed) @ drop (Suc 0) (timers sys_failed)"
    and im2: "imaps s2 =
       (if isRunning sys_failed \<and> \<not> imap_start_throws quiet_env (length (imaps sys_failed)) acct1
        then imaps sys_failed @ [\<lparr>imap_accountId = 1, imap_account = acct1,
                                  once_ready = True, once_error = True, once_end = True,
                                  imap_ops = [Connect]\<rparr>]
        else imaps sys_failed)"
    by blast
  have tm2': "timers s2 = []"
    using tm2 t' by simp
  have im2': "map imap_ops (imaps s2) = [[Connect, OpenBox ''INBOX''], [Connect]]"
    using im2 r nt im by simp
  have f1: "\<exists>s1. deliver quiet_env (TimerFired 0) sys_failed = Some s1 \<and> timers s1 = [] \<and>
         map imap_ops (imaps s1) = [[Connect, OpenBox ''INBOX''], [Connect]]"
    using d2 tm2' im2' by (intro exI [of _ s2] conjI)
  have r2: "isRunning (stopSync quiet_env sys_failed) = False"
    and t2: "timers (stopSync quiet_env sys_failed) = [(30000, Reconnect 1 acct1)]"
    and hs: "0 < length (imaps (stopSync quiet_env sys_failed))"
    using t' hf by (simp_all add: stopSync_fields)
  from t2 have t3: "0 < length (timers (stopSync quiet_env sys_failed)) \<and>
                    timers (stopSync quiet_env sys_failed) ! 0 = (30000, Reconnect 1 acct1)"
    by simp
  from connection_error_reconnects [OF hs refl, of quiet_env] t3
  obtain s3 where d3: "deliver quiet_env (TimerFired 0) (stopSync quiet_env sys_failed) = Some s3"
    and tm3: "timers s3 = take 0 (timers (stopSync quiet_env sys_failed)) @
                 drop (Suc 0) (timers (stopSync quiet_env sys_failed))"
    and im3: "imaps s3 =
       (if isRunning (stopSync quiet_env sys_failed) \<and>
           \<not> imap_start_throws quiet_env (length (imaps (stopSync quiet_env sys_failed))) acct1
        then imaps (stopSync quiet_env sys_failed) @
               [\<lparr>imap_accountId = 1, imap_account = acct1,
                 once_ready = True, once_error = True, once_end = True, imap_ops = [Connect]\<rparr>]
        else imaps (stopSync quiet_env sys_failed))"
    by blast
  have tm3': "timers s3 = []"
    using tm3 t2 by simp
  have im3': "imaps s3 = imaps (stopSync quiet_env sys_failed)"
    using im3 r2 by simp
  have f2: "\<exists>s1. deliver quiet_env (TimerFired 0) (stopSync quiet_env sys_failed) = Some s1 \<and>
         timers s1 = [] \<and> imaps s1 = imaps (stopSync quiet_env sys_failed)"
    using d3 tm3' im3' by (intro exI [of _ s3] conjI)
  from t0 have t0': "timers sys_failed ! 0 = (30000, Reconnect 1 acct1)" by simp
  from t3 have t3': "timers (stopSync quiet_env sys_failed) ! 0 = (30000, Reconnect 1 acct1)" by simp
  from h oe on error_sys_running c t' k e r t0' f1 r2 t3' f2 show ?thesis
    by (intro conjI)
qed

text \<open>
  Claim C8, as stated, fails for a connection that ends without an error (the server
  hangs up): the entry is removed and no reconnection is scheduled, although the service
  is running.
\<close>

theorem hangup_schedules_no_reconnect:
  "isRunning sys_running \<and>
   connections sys_running = [(1, 0)] \<and>
   map_option connections (deliver quiet_env (ImapEnd 0) sys_running) = Some [] \<and>
   map_option timers (deliver quiet_env (ImapEnd 0) sys_running) = Some [] \<and>
   map_option (\<lambda>t. map imap_ops (imaps t)) (deliver quiet_env (ImapEnd 0) sys_running) =
     Some [[Connect, OpenBox ''INBOX'']]"
  by (simp add: running_defs logger_def Let_def unregister_def)

text \<open>
  The listeners are registered with \<open>once\<close>: a second \<open>error\<close> event of the same
  object finds no listener.
\<close>

lemma second_error_unhandled: "deliver quiet_env (ImapError 0) sys_failed = None"
  by (simp add: running_defs)

section \<open>After stopSync\<close>

lemma clearInterval_disarms:
  "h < length ivs \<Longrightarrow> \<not> snd (clearInterval h ivs ! h)"
  by (simp add: clearInterval_def)

text \<open>
  Claim C9, as amended. \<open>stopSync\<close> always returns (it is total, and an exception of
  \<open>connection.end()\<close> is caught inside the loop), also on a service that was never
  started. When it returns, \<open>isRunning\<close> is false, the periodic timer is cleared,
  \<open>end()\<close> has been requested of every connection that was in \<open>connections\<close>, and
  \<open>connections\<close> is empty. \<open>stopSync\<close> itself makes no downstream call and leaves the
  stores alone; a reconnection scheduled earlier, when it fires, starts nothing, and the
  periodic callback does nothing.
\<close>

theorem stopSync_effects:
  "isRunning (stopSync ev s) = False \<and>
   syncInterval (stopSync ev s) = None \<and>
   connections (stopSync ev s) = [] \<and>
   (\<forall>h. syncInterval s = Some h \<and> h < length (intervals s) \<longrightarrow>
        \<not> snd (intervals (stopSync ev s) ! h)) \<and>
   (\<forall>c\<in>set (connections s). snd c < length (imaps s) \<longrightarrow>
        End \<in> set (imap_ops (imaps (stopSync ev s) ! snd c))) \<and>
   calls (stopSync ev s) = calls s \<and>
   db_emails (stopSync ev s) = db_emails s \<and>
   es_index (stopSync ev s) = es_index s \<and>
   (\<forall>i. \<exists>t. deliver ev (TimerFired i) (stopSync ev s) = Some t \<and>
             imaps t = imaps (stopSync ev s) \<and> connections t = [] \<and> calls t = calls s) \<and>
   (\<forall>h. deliver ev (IntervalFired h) (stopSync ev s) = Some (stopSync ev s))"
proof -
  have iv: "\<not> snd (intervals (stopSync ev s) ! h)"
    if "syncInterval s = Some h \<and> h < length (intervals s)" for h
    using that by (simp add: stopSync_fields clearInterval_disarms)
  have en: "End \<in> set (imap_ops (imaps (stopSync ev s) ! snd c))"
    if "c \<in> set (connections s)" and "snd c < length (imaps s)" for c
    using stopSync_ends [of "fst c" "snd c" s ev] that by simp
  have tm: "\<exists>t. deliver ev (TimerFired i) (stopSync ev s) = Some t \<and>
             imaps t = imaps (stopSync ev s) \<and> connections t = [] \<and> calls t = calls s" for i
  proof (cases "i < length (timers (stopSync ev s))")
    case True
    obtain d a account where "timers (stopSync ev s) ! i = (d, Reconnect a account)"
      by (metis timer_callback.exhaust surj_pair)
    with True show ?thesis
      by (simp add: Let_def stopSync_fields)
  next
    case False
    then show ?thesis by (simp add: stopSync_fields)
  qed
  have it: "deliver ev (IntervalFired h) (stopSync ev s) = Some (stopSync ev s)" for h
    by (simp add: stopSync_fields)
  from iv en tm it show ?thesis
    by (simp add: stopSync_fields)
qed

theorem stopSync_effects_witness:
  "syncInterval sys_running = Some 0 \<and> 0 < length (intervals sys_running) \<and>
   \<not> snd (intervals (stopSync quiet_env sys_running) ! 0) \<and>
   (1, 0) \<in> set (connections sys_running) \<and> 0 < length (imaps sys_running) \<and>
   End \<in> set (imap_ops (imaps (stopSync quiet_env sys_running) ! 0)) \<and>
   isRunning (stopSync quiet_env sys_running) = False \<and>
   connections (stopSync quiet_env sys_running) = [] \<and>
   calls (stopSync quiet_env sys_running) = calls sys_running \<and>
   stopSync quiet_env system0 =
     system0\<lparr>logs := [Log Info [S ''Stopping email synchronization...''],
                      Log Info [S ''Email synchronization stopped'']]\<rparr>"
proof -
  have a: "syncInterval sys_running = Some 0" "0 < length (intervals sys_running)"
    "(1, 0) \<in> set (connections sys_running)" "0 < length (imaps sys_running)"
    by (simp_all add: sys_running_def sys_started_def)
  note inst = stopSync_effects [of quiet_env sys_running]
  from inst a(1,2) have b: "\<not> snd (intervals (stopSync quiet_env sys_running) ! 0)"
    by blast
  from inst a(3,4) have c: "End \<in> set (imap_ops (imaps (stopSync quiet_env sys_running) ! 0))"
    by fastforce
  from inst have d: "isRunning (stopSync quiet_env sys_running) = False"
    "connections (stopSync quiet_env sys_running) = []"
    "calls (stopSync quiet_env sys_running) = calls sys_running"
    by blast+
  have e: "stopSync quiet_env system0 =
     system0\<lparr>logs := [Log Info [S ''Stopping email synchronization...''],
                      Log Info [S ''Email synchronization stopped'']]\<rparr>"
    by (simp add: stopSync_def Let_def logger_def system0_def)
  from a b c d e show ?thesis by blast
qed

text \<open>
  Claim C9, as stated, fails in its last part. A fetch burst in flight is not cancelled:
  the message \<open>raw1\<close> of a fetch for account 1 has been parsed when \<open>stopSync\<close>
  returns; the \<open>end\<close> event of the fetch then runs \<open>processEmails\<close>, which makes six
  downstream calls. Nor is a connection stopped that is not yet ready: it is not in
  \<open>connections\<close>, no \<open>end()\<close> is requested of it, and its \<open>ready\<close> event puts it
  into \<open>connections\<close> after \<open>stopSync\<close> has emptied it.
\<close>

theorem downstream_calls_after_stopSync:
  "fetchEmails 1 ''INBOX'' [7] \<noteq> None \<and>
   fetch_run quiet_env [MessageEnd [''raw1''], ParseSettled 0 draws1]
     (the (fetchEmails 1 ''INBOX'' [7]), sys_running) = Some (fetch_parsed, sys_running) \<and>
   isRunning sys_stopped = False \<and>
   connections sys_stopped = [] \<and>
   calls sys_stopped = [Query SelectActiveAccounts] \<and>
   map_option (\<lambda>fs. calls (snd fs))
     (fetch_deliver quiet_env FetchEnd (fetch_parsed, sys_stopped)) =
     Some [Query SelectActiveAccounts,
           GetEmailById ''u1'', CategorizeEmail ''Hello'' ''Hi there'' ''bob@example.com'',
           Query (UpsertEmail doc1), IndexEmail doc1, VectorStoreEmail doc1, IoEmit doc1] \<and>
   connections (stopSync quiet_env sys_started) = [] \<and>
   map_option connections (deliver quiet_env (ImapReady 0) (stopSync quiet_env sys_started)) =
     Some [(1, 0)] \<and>
   map_option (\<lambda>t. map imap_ops (imaps t))
     (deliver quiet_env (ImapReady 0) (stopSync quiet_env sys_started)) =
     Some [[Connect, OpenBox ''INBOX'']]"
proof -
  have f0: "fetchEmails 1 ''INBOX'' [7] \<noteq> None"
    by (simp add: fetchEmails_def)
  have acc: "accounts sys_running = [(1, acct1)]"
    by (simp add: sys_running_def sys_started_def)
  have f1: "fetch_run quiet_env [MessageEnd [''raw1''], ParseSettled 0 draws1]
     (the (fetchEmails 1 ''INBOX'' [7]), sys_running) = Some (fetch_parsed, sys_running)"
    by (simp add: fetchEmails_def acc parse_mail1_first fetch_parsed_def quiet_env_def logger_def)
  have r: "isRunning sys_stopped = False" and cn: "connections sys_stopped = []"
    and c: "calls sys_stopped = [Query SelectActiveAccounts]"
    and e: "es_index sys_stopped = []"
    by (simp_all add: sys_stopped_def stopSync_fields sys_running_def sys_started_def)
  have f2: "map_option (\<lambda>fs. calls (snd fs))
     (fetch_deliver quiet_env FetchEnd (fetch_parsed, sys_stopped)) =
     Some [Query SelectActiveAccounts,
           GetEmailById ''u1'', CategorizeEmail ''Hello'' ''Hi there'' ''bob@example.com'',
           Query (UpsertEmail doc1), IndexEmail doc1, VectorStoreEmail doc1, IoEmit doc1]"
    by (simp add: fetch_parsed_def pipeline_defs c e quiet_env_def no_ai_def doc1_fields)
  have p1: "connections (stopSync quiet_env sys_started) = []"
    by (simp add: stopSync_fields)
  have p2: "map_option connections (deliver quiet_env (ImapReady 0) (stopSync quiet_env sys_started)) =
     Some [(1, 0)]"
    by (simp add: running_defs stop_defs unregister_def)
  have p3: "map_option (\<lambda>t. map imap_ops (imaps t))
     (deliver quiet_env (ImapReady 0) (stopSync quiet_env sys_started)) =
     Some [[Connect, OpenBox ''INBOX'']]"
    by (simp add: running_defs stop_defs unregister_def acct1_def)
  from f0 f1 r cn c f2 p1 p2 p3 show ?thesis by blast
qed

section \<open>fetchEmails\<close>

lemma fetch_run_append:
  "fetch_run ev (es1 @ es2) fs =
     (case fetch_run ev es1 fs of None \<Rightarrow> None | Some fs1 \<Rightarrow> fetch_run ev es2 fs1)"
  by (induction es1 arbitrary: fs) (auto split: option.splits)

lemma logger_logger: "logger l2 (logger l1 s) = logger (l1 @ l2) s"
  by (simp add: logger_def)

lemma logger_nil [simp]: "logger [] s = s"
  by (simp add: logger_def)

lemma fetch_parsing_nil: "fetch_parsing f = [] \<Longrightarrow> f\<lparr>fetch_parsing := []\<rparr> = f"
  by (cases f) simp

text \<open>One message whose parse settles at once.\<close>

lemma fetch_message_in_order:
  assumes "fetch_parsing f = []"
  shows "fetch_run ev [MessageEnd (fst m), ParseSettled (fetch_messages f) (snd m)] (f, s) =
     Some (f\<lparr>fetch_emails := fetch_emails f @
                (case snd (parse_message ev (accounts s) (fetch_accountId f) (fetch_folderName f) m) of
                   None \<Rightarrow> [] | Some emailDoc \<Rightarrow> [emailDoc]),
             fetch_messages := Suc (fetch_messages f)\<rparr>,
           logger (fst (parse_message ev (accounts s) (fetch_accountId f) (fetch_folderName f) m)) s)"
proof -
  have f: "f\<lparr>fetch_parsing := []\<rparr> = f"
    using assms by (rule fetch_parsing_nil)
  have g: "f\<lparr>fetch_messages := Suc (fetch_messages f), fetch_parsing := []\<rparr> =
           f\<lparr>fetch_messages := Suc (fetch_messages f)\<rparr>"
    using assms by (cases f) simp
  have h: "f\<lparr>fetch_messages := Suc (fetch_messages f), fetch_parsing := [],
             fetch_emails := fetch_emails f @ [d]\<rparr> =
           f\<lparr>fetch_emails := fetch_emails f @ [d], fetch_messages := Suc (fetch_messages f)\<rparr>" for d
    using assms by (cases f) simp
  show ?thesis
    using assms
    by (auto simp: parse_message_def Let_def g h split: option.splits prod.splits)
qed

lemma fetch_run_in_order:
  assumes "fetch_parsing f = []"
  shows "fetch_run ev (in_order ms (fetch_messages f)) (f, s) =
     Some (f\<lparr>fetch_emails := fetch_emails f @
                parsed_batch ev (accounts s) (fetch_accountId f) (fetch_folderName f) ms,
             fetch_messages := fetch_messages f + length ms\<rparr>,
           logger (parse_logs ev (accounts s) (fetch_accountId f) (fetch_folderName f) ms) s)"
  using assms
proof (induction ms arbitrary: f s)
  case Nil
  then show ?case by (cases f) simp
next
  case (Cons m ms)
  let ?pm = "parse_message ev (accounts s) (fetch_accountId f) (fetch_folderName f) m"
  let ?f1 = "f\<lparr>fetch_emails := fetch_emails f @
                (case snd ?pm of None \<Rightarrow> [] | Some emailDoc \<Rightarrow> [emailDoc]),
             fetch_messages := Suc (fetch_messages f)\<rparr>"
  let ?s1 = "logger (fst ?pm) s"
  have one: "fetch_run ev [MessageEnd (fst m), ParseSettled (fetch_messages f) (snd m)] (f, s) =
               Some (?f1, ?s1)"
    using Cons.prems by (rule fetch_message_in_order)
  have p1: "fetch_parsing ?f1 = []"
    using Cons.prems by simp
  have split: "in_order (m # ms) (fetch_messages f) =
      [MessageEnd (fst m), ParseSettled (fetch_messages f) (snd m)] @ in_order ms (fetch_messages ?f1)"
    by simp
  have "fetch_run ev (in_order (m # ms) (fetch_messages f)) (f, s) =
          fetch_run ev (in_order ms (fetch_messages ?f1)) (?f1, ?s1)"
    unfolding split fetch_run_append one by simp
  also have "\<dots> = Some (?f1\<lparr>fetch_emails := fetch_emails ?f1 @
                parsed_batch ev (accounts ?s1) (fetch_accountId ?f1) (fetch_folderName ?f1) ms,
             fetch_messages := fetch_messages ?f1 + length ms\<rparr>,
           logger (parse_logs ev (accounts ?s1) (fetch_accountId ?f1) (fetch_folderName ?f1) ms) ?s1)"
    using Cons.IH [OF p1] .
  also have "\<dots> = Some (f\<lparr>fetch_emails := fetch_emails f @
                parsed_batch ev (accounts s) (fetch_accountId f) (fetch_folderName f) (m # ms),
             fetch_messages := fetch_messages f + length (m # ms)\<rparr>,
           logger (parse_logs ev (accounts s) (fetch_accountId f) (fetch_folderName f) (m # ms)) s)"
    by (simp add: logger_logger split: option.splits)
  finally show ?case .
qed

text \<open>
  With that schedule the batch forwarded is the reference batch: the messages that
  parse, in the order of the fetch; a message that does not parse is logged and skipped.
\<close>

lemma fetch_in_order_forwards_parsed_batch:
  assumes "fetchEmails a folderName uids = Some f"
    and "batch = parsed_batch ev (accounts s) a folderName ms"
    and "s1 = logger (parse_logs ev (accounts s) a folderName ms) s"
  shows "\<exists>f'. fetch_run ev (in_order ms 0 @ [FetchEnd]) (f, s) =
           Some (f', if batch \<noteq> []
                     then logger [Log Info [S ''Processed '', N (int (length batch)),
                                            S '' emails from '', S folderName]]
                            (processEmails ev batch s1)
                     else s1)"
proof -
  from assms(1) have f: "fetch_parsing f = []" "fetch_messages f = 0" "fetch_emails f = []"
    "fetch_accountId f = a" "fetch_folderName f = folderName" "fetch_once_end f"
    by (auto simp: fetchEmails_def split: if_splits)
  from fetch_run_in_order [OF f(1), of ev ms s] f assms(2,3)
  have "fetch_run ev (in_order ms 0) (f, s) =
          Some (f\<lparr>fetch_emails := batch, fetch_messages := length ms\<rparr>, s1)"
    by simp
  then show ?thesis
    using f by (simp add: fetch_run_append)
qed

lemma quiet_parser:
  "simpleParser quiet_env ''raw1'' = Some mail1" "simpleParser quiet_env ''raw2'' = None"
  "simpleParser quiet_env ''raw3'' = Some mail3"
  by (simp_all add: quiet_env_def)

lemma fetch_three_eq:
  "fetch_three = \<lparr>fetch_accountId = 1, fetch_folderName = ''INBOX'', fetch_emails = [],
                   fetch_parsing = [], fetch_messages = 0, fetch_once_end = True,
                   fetch_once_error = True\<rparr>"
  by (simp add: fetch_three_def fetchEmails_def)

lemma step_accounts [simp]:
  "accounts (storeEmailInDatabase ev email s) = accounts s"
  "accounts (vector_storeEmail ev email s) = accounts s"
  "accounts (handleInterestedEmail ev email s) = accounts s"
  by (simp_all add: storeEmailInDatabase_def vector_storeEmail_def handleInterestedEmail_def
      triggerInterestedEmailWebhook_def sendInterestedEmailNotification_def Let_def)

lemma indexEmail_accounts: "accounts (state_of (indexEmail ev email s)) = accounts s"
  by (simp add: indexEmail_def state_of_def Let_def)

lemma forward_email_accounts: "accounts (state_of (forward_email ev email s)) = accounts s"
proof (cases "indexEmail ev email (storeEmailInDatabase ev email s)")
  case (Inl thrown)
  with indexEmail_accounts [of ev email "storeEmailInDatabase ev email s"] show ?thesis
    by (simp add: forward_email_def state_of_def)
next
  case (Inr s1)
  with indexEmail_accounts [of ev email "storeEmailInDatabase ev email s"] show ?thesis
    by (simp add: forward_email_def state_of_def Let_def)
qed

lemma processEmail_accounts:
  "accounts (state_of (processEmail ev email s)) = accounts s"
proof (cases "es_get_fails ev (length (calls s)) (id' email)")
  case True
  then show ?thesis
    by (simp add: processEmail_def getEmailById_def state_of_def Let_def)
next
  case False
  show ?thesis
  proof (cases "map_of (es_index s) (id' email)")
    case (Some existing)
    with False show ?thesis
      by (simp add: processEmail_def getEmailById_def state_of_def Let_def)
  next
    case None
    with False forward_email_accounts show ?thesis
      by (simp add: processEmail_def getEmailById_def Let_def split: prod.splits)
  qed
qed

lemma processEmails_accounts [simp]: "accounts (processEmails ev emails s) = accounts s"
proof (induction emails arbitrary: s)
  case Nil
  then show ?case by simp
next
  case (Cons email emails)
  show ?case
  proof (cases "processEmail ev email s")
    case (Inl thrown)
    obtain err s1 where "thrown = (err, s1)" by (cases thrown)
    with Inl processEmail_accounts [of ev email s] show ?thesis
      by (simp add: state_of_def)
  next
    case (Inr s1)
    with Cons.IH [of s1] processEmail_accounts [of ev email s] show ?thesis
      by (simp add: state_of_def)
  qed
qed

text \<open>
  Claim C6 says that the batch forwarded for a fetch is exactly the messages that parse,
  in the order of the fetch. The handler of a message pushes its document only after
  \<open>await simpleParser(buffer)\<close>, and the handler of the fetch's \<open>end\<close> forwards
  whatever has been pushed by then. For the fetch of \<open>raw1\<close>, \<open>raw2\<close>, \<open>raw3\<close>, of
  which the second does not parse, the batch should be \<open>[doc1, doc3]\<close>. When the fetch
  ends before the parse of the third message settles, only \<open>doc1\<close> is forwarded; in
  the run below \<open>doc3\<close> is pushed when the batch has been processed, and is not
  processed. When the parses settle in another order than the messages, the batch is
  forwarded in that order. When the fetch ends before any parse settles, nothing is
  forwarded at all (\<open>fetch_end_before_any_parse\<close>).
\<close>

theorem fetch_end_before_parse_settles:
  "parsed_batch quiet_env (accounts sys_running) 1 ''INBOX'' three_messages = [doc1, doc3] \<and>
   map_option (\<lambda>fs. calls (snd fs)) (fetch_run quiet_env schedule_late (fetch_three, sys_running)) =
     Some [Query SelectActiveAccounts,
           GetEmailById ''u1'', CategorizeEmail ''Hello'' ''Hi there'' ''bob@example.com'',
           Query (UpsertEmail doc1), IndexEmail doc1, VectorStoreEmail doc1, IoEmit doc1] \<and>
   map_option (\<lambda>fs. fetch_emails (fst fs))
     (fetch_run quiet_env schedule_late (fetch_three, sys_running)) = Some [doc1, doc3] \<and>
   map_option (\<lambda>fs. map fst (es_index (snd fs)))
     (fetch_run quiet_env schedule_reversed (fetch_three, sys_running)) = Some [''u3'', ''u1'']"
proof -
  have ref: "parsed_batch quiet_env (accounts sys_running) 1 ''INBOX'' three_messages = [doc1, doc3]"
    by (simp add: three_messages_def parse_message_def quiet_parser sys_running_fields
        parse_mail1_first parse_mail3)
  have late: "fetch_run quiet_env schedule_late (fetch_three, sys_running) =
     Some (fetch_three\<lparr>fetch_emails := [doc1, doc3], fetch_messages := 3, fetch_once_end := False\<rparr>,
           logger [Log Info [S ''Processed '', N 1, S '' emails from '', S ''INBOX'']]
             (processEmails quiet_env [doc1]
                (logger [Log Error [S ''Error parsing email:'', E ParserFailed]] sys_running)))"
    by (simp add: schedule_late_def fetch_three_eq quiet_parser sys_running_fields
        parse_mail1_first parse_mail3 logger_logger del: processEmails.simps)
  have c: "calls (processEmails quiet_env [doc1]
                (logger [Log Error [S ''Error parsing email:'', E ParserFailed]] sys_running)) =
     [Query SelectActiveAccounts,
      GetEmailById ''u1'', CategorizeEmail ''Hello'' ''Hi there'' ''bob@example.com'',
      Query (UpsertEmail doc1), IndexEmail doc1, VectorStoreEmail doc1, IoEmit doc1]"
    by (simp add: pipeline_defs sys_running_fields quiet_env_def no_ai_def doc1_fields)
  have rev: "fetch_run quiet_env schedule_reversed (fetch_three, sys_running) =
     Some (fetch_three\<lparr>fetch_emails := [doc3, doc1], fetch_messages := 3, fetch_once_end := False\<rparr>,
           logger [Log Info [S ''Processed '', N 2, S '' emails from '', S ''INBOX'']]
             (processEmails quiet_env [doc3, doc1]
                (logger [Log Error [S ''Error parsing email:'', E ParserFailed]] sys_running)))"
    by (simp add: schedule_reversed_def fetch_three_eq quiet_parser sys_running_fields
        parse_mail1_first parse_mail3 logger_logger del: processEmails.simps)
  have e: "map fst (es_index (processEmails quiet_env [doc3, doc1]
                (logger [Log Error [S ''Error parsing email:'', E ParserFailed]] sys_running))) =
     [''u3'', ''u1'']"
    by (simp add: pipeline_defs sys_running_fields quiet_env_def no_ai_def doc1_fields doc3_fields)
  show ?thesis
    unfolding late rev using ref c e by simp
qed

text \<open>
  A fetch of one message that ends before the parse settles: \<open>emails\<close> is empty at the
  \<open>end\<close> event, \<open>processEmails\<close> is not called, and the document pushed afterwards
  stays where it is.
\<close>

lemma fetch_end_before_any_parse:
  "fetch_run quiet_env [MessageEnd [''raw1''], FetchEnd, ParseSettled 0 draws1]
     (fetch_three, sys_running) =
     Some (fetch_three\<lparr>fetch_emails := [doc1], fetch_messages := 1, fetch_once_end := False\<rparr>,
           sys_running)"
  by (simp add: fetch_three_eq quiet_parser sys_running_fields parse_mail1_first)

end
